theory Spec2Isabelle
  imports Main "HOL-Library.AList"
begin

section \<open>Text chunker (Utils.gs, chunkContent)\<close>

text \<open>
  JavaScript strings are modelled as \<^typ>\<open>string\<close>, one list element per code unit;
  the chunker only measures lengths, slices and searches for the two ASCII patterns
  below. \<open>String.prototype.substring\<close> clamps both arguments to the length of the
  string and swaps them when the first is the larger one.
\<close>

definition substring :: "string \<Rightarrow> nat \<Rightarrow> nat \<Rightarrow> string" where
  "substring s a b = take (max a b - min a b) (drop (min a b) s)"

text \<open>
  \<open>s.lastIndexOf(pat, fromIndex)\<close>: the largest index not above \<open>fromIndex\<close> at
  which \<open>pat\<close> starts, or \<open>-1\<close>. The search runs downwards from
  \<open>min fromIndex (length s)\<close>.
\<close>

fun lastIndexOf_down :: "string \<Rightarrow> string \<Rightarrow> nat \<Rightarrow> int" where
  "lastIndexOf_down s pat 0 = (if take (length pat) s = pat then 0 else - 1)"
| "lastIndexOf_down s pat (Suc i) =
     (if take (length pat) (drop (Suc i) s) = pat then int (Suc i)
      else lastIndexOf_down s pat i)"

definition lastIndexOf :: "string \<Rightarrow> string \<Rightarrow> nat \<Rightarrow> int" where
  "lastIndexOf s pat fromIndex = lastIndexOf_down s pat (min fromIndex (length s))"

text \<open>
  The comparison \<open>x > currentIndex + maxChunkSize * 0.7\<close> is computed in IEEE-754
  doubles. The literal \<open>0.7\<close> is the double \<open>6305039478318694 / 2^53\<close>; the product
  and the sum are each rounded to a 53-bit significand, to nearest, ties to even. All the
  values involved are non-negative multiples of \<open>2^-53\<close>, so a value is held as its
  numerator over \<open>2^53\<close>: \<open>low_bits n\<close> is the number of low bits of \<open>n\<close> that
  do not fit in the significand, and \<open>round_double\<close> rounds them away. Indices and
  sizes themselves are integers, on which the arithmetic is exact below \<open>2^53\<close>.
\<close>

definition double_0_7 :: nat where
  "double_0_7 = 6305039478318694"

function low_bits :: "nat \<Rightarrow> nat" where
  "low_bits n = (if n < 2 ^ 53 then 0 else Suc (low_bits (n div 2)))"
  by pat_completeness auto
termination
  by (relation "measure (\<lambda>n. n)") auto

declare low_bits.simps [simp del]

definition round_double :: "nat \<Rightarrow> nat" where
  "round_double n =
     (let k = low_bits n; q = n div 2 ^ k; r = n mod 2 ^ k
      in if k = 0 then n
         else if 2 ^ k < 2 * r \<or> (2 * r = 2 ^ k \<and> odd q) then (q + 1) * 2 ^ k
         else q * 2 ^ k)"

definition above_threshold :: "int \<Rightarrow> nat \<Rightarrow> nat \<Rightarrow> bool" where
  "above_threshold x currentIndex maxChunkSize \<longleftrightarrow>
     int (round_double (currentIndex * 2 ^ 53 + round_double (maxChunkSize * double_0_7)))
       < x * 2 ^ 53"

text \<open>
  One pass through the body of the \<open>while\<close> loop of \<open>chunkContent\<close>: the value of
  \<open>chunkEnd\<close> when the chunk is pushed.
\<close>

definition next_chunkEnd :: "string \<Rightarrow> nat \<Rightarrow> nat \<Rightarrow> nat" where
  "next_chunkEnd content maxChunkSize currentIndex =
     (let chunkEnd = currentIndex + maxChunkSize in
      if chunkEnd < length content then
        (let paragraphBreak = lastIndexOf content ''\<newline>\<newline>'' chunkEnd in
         if above_threshold paragraphBreak currentIndex maxChunkSize
         then nat paragraphBreak
         else
           (let sentenceBreak = lastIndexOf content ''. '' chunkEnd in
            if above_threshold sentenceBreak currentIndex maxChunkSize
            then nat (sentenceBreak + 1)
            else chunkEnd))
      else chunkEnd)"

text \<open>
  The \<open>while (currentIndex < content.length)\<close> loop. With \<open>maxChunkSize = 0\<close> the
  source never leaves the loop, so the loop is a partial function: \<open>None\<close> is
  "does not return".
\<close>

partial_function (option) chunk_loop ::
  "string \<Rightarrow> nat \<Rightarrow> nat \<Rightarrow> string list \<Rightarrow> string list option" where
  "chunk_loop content maxChunkSize currentIndex chunks =
     (if currentIndex < length content then
        chunk_loop content maxChunkSize (next_chunkEnd content maxChunkSize currentIndex)
          (chunks @ [substring content currentIndex
                       (next_chunkEnd content maxChunkSize currentIndex)])
      else Some chunks)"

declare chunk_loop.simps [code]

text \<open>
  \<open>chunkContent(content, maxChunkSize)\<close> for a string \<open>content\<close> (the
  \<open>typeof content !== 'string'\<close> guard returns \<open>[]\<close> for values that the type
  \<^typ>\<open>string\<close> excludes).
\<close>

definition chunkContent :: "string \<Rightarrow> nat \<Rightarrow> string list option" where
  "chunkContent content maxChunkSize =
     (if length content \<le> maxChunkSize then Some [content]
      else chunk_loop content maxChunkSize 0 [])"

text \<open>
  What the proofs below establish about the chunks produced from position \<open>cur\<close>
  on: they concatenate to the rest of the text, none is empty, none is longer than
  \<open>m + 1\<close>, only a chunk ending in a full stop is longer than \<open>m\<close>, and the
  chunks before the last take more than \<open>lo\<close> characters each (\<open>lo\<close> times their
  number is less than what is left of the text).
\<close>

definition chunks_ok :: "string \<Rightarrow> nat \<Rightarrow> nat \<Rightarrow> nat \<Rightarrow> string list \<Rightarrow> bool" where
  "chunks_ok s m lo cur cs \<longleftrightarrow>
     concat cs = drop cur s \<and>
     (\<forall>c \<in> set cs. c \<noteq> [] \<and> length c \<le> m + 1 \<and> (last c \<noteq> CHR ''.'' \<longrightarrow> length c \<le> m)) \<and>
     (cur < length s \<longrightarrow> cs \<noteq> [] \<and> lo * (length cs - 1) < length s - cur)"


section \<open>Bounded key-value store over the script properties (saveToStorage, loadFromStorage)\<close>

subsection \<open>String helpers\<close>

text \<open>
  \<open>startsWith\<close>, \<open>endsWith\<close> and \<open>includes\<close> of JavaScript strings, and the decimal
  rendering of a non-negative integer inside a template literal (\<open>`${index}`\<close>).
\<close>

definition startsWith :: "string \<Rightarrow> string \<Rightarrow> bool" where
  "startsWith s p = (take (length p) s = p)"

definition endsWith :: "string \<Rightarrow> string \<Rightarrow> bool" where
  "endsWith s p = (length p \<le> length s \<and> drop (length s - length p) s = p)"

fun str_includes :: "string \<Rightarrow> string \<Rightarrow> bool" where
  "str_includes [] p = (p = [])"
| "str_includes (c # s) p = (take (length p) (c # s) = p \<or> str_includes s p)"

definition digit_char :: "nat \<Rightarrow> char" where
  "digit_char d = ''0123456789'' ! d"

fun show_nat :: "nat \<Rightarrow> string" where
  "show_nat n = (if n < 10 then [digit_char n] else show_nat (n div 10) @ [digit_char (n mod 10)])"

declare show_nat.simps [simp del]

subsection \<open>Stored values\<close>

text \<open>
  The \<open>metadata\<close> object of a stored entry. \<open>tags\<close> holds the caller's own fields
  (\<open>type\<close>, \<open>pageId\<close>, ...); the other four are the fields that \<open>saveToStorage\<close>
  writes after spreading the caller's object, and that \<open>loadFromStorage\<close>,
  \<open>deleteFromStorage\<close> and the cleanup read. A field that is absent is \<open>None\<close>.
  \<open>timestamp\<close> is the clock reading in milliseconds that \<open>new Date().toISOString()\<close>
  records and \<open>new Date(...)\<close> reads back.
\<close>

record metadata =
  tags :: "(string \<times> string) list"
  timestamp :: "int option"
  size_m :: "nat option"
  chunked :: "bool option"
  chunkCount :: "nat option"

definition no_metadata :: metadata where
  "no_metadata = \<lparr>tags = [], timestamp = None, size_m = None, chunked = None, chunkCount = None\<rparr>"

text \<open>
  What \<open>JSON.parse\<close> yields, as far as the code looks at it: \<open>null\<close> (every field
  access throws), or a value of which the code reads the fields \<open>content\<close>,
  \<open>metadata\<close>, \<open>taskId\<close> and \<open>result\<close>; a field that is absent is \<open>None\<close>.
\<close>

datatype json =
  JNull
| JObject (j_content: "string option") (j_metadata: "metadata option")
    (j_taskId: "string option") (j_result: "string option")

text \<open>
  A script property holds a string. The model keeps apart the strings written as
  \<open>JSON.stringify(obj)\<close>, held as the object they encode (\<open>JSON.parse\<close> gives the
  object back), and raw text such as a chunk of a payload. What \<open>JSON.parse\<close> makes of
  raw text and how a JSON document reads as text are parameters of the environment, as is
  the property service's refusal of a write (\<open>setProperty\<close> throws, for instance when a
  quota of the service is exceeded); \<open>rejects\<close> gives the error message of a refused
  write.
\<close>

datatype pval = Text string | Json json

type_synonym props = "(string \<times> pval) list"

record env =
  rejects :: "props \<Rightarrow> string \<Rightarrow> pval \<Rightarrow> string option"
  parse_text :: "string \<Rightarrow> json option"
  json_text :: "json \<Rightarrow> string"

text \<open>
  \<open>if (value)\<close> on the result of \<open>getProperty\<close>: \<open>null\<close> and the empty string are
  falsy. \<open>JSON_parse\<close> is \<open>None\<close> when \<open>JSON.parse\<close> throws.
\<close>

definition truthy :: "pval \<Rightarrow> bool" where
  "truthy v = (v \<noteq> Text [])"

definition JSON_parse :: "env \<Rightarrow> pval \<Rightarrow> json option" where
  "JSON_parse e v = (case v of Json j \<Rightarrow> Some j | Text t \<Rightarrow> parse_text e t)"

definition text_of :: "env \<Rightarrow> pval \<Rightarrow> string" where
  "text_of e v = (case v of Text t \<Rightarrow> t | Json j \<Rightarrow> json_text e j)"

subsection \<open>The property service\<close>

text \<open>
  The script properties are an association list, whose order is the order in which
  \<open>getProperties()\<close> enumerates the keys. A refused write leaves the store as it was and
  returns the error.
\<close>

definition getProperty :: "props \<Rightarrow> string \<Rightarrow> pval option" where
  "getProperty s k = map_of s k"

definition setProperty :: "env \<Rightarrow> props \<Rightarrow> string \<Rightarrow> pval \<Rightarrow> props \<times> string option" where
  "setProperty e s k v =
     (case rejects e s k v of
        Some err \<Rightarrow> (s, Some err)
      | None \<Rightarrow> (AList.update k v s, None))"

definition deleteProperty :: "props \<Rightarrow> string \<Rightarrow> props" where
  "deleteProperty s k = AList.delete k s"

subsection \<open>Configuration (Config.gs, STORAGE\_CONFIG)\<close>

record storage_config =
  maxChunkSize :: nat
  maxTotalSize :: nat
  autoCleanup :: bool
  maxAge :: int
  maxEntries :: nat

definition STORAGE_CONFIG :: storage_config where
  "STORAGE_CONFIG =
     \<lparr>maxChunkSize = 450000, maxTotalSize = 8000000, autoCleanup = True,
      maxAge = 24, maxEntries = 50\<rparr>"

subsection \<open>Keys\<close>

text \<open>
  \<open>`STORAGE_${path}`\<close>, \<open>`STORAGE_${path}_CHUNK_${index}`\<close> and
  \<open>`STORAGE_${path}_META`\<close>.
\<close>

definition single_key :: "string \<Rightarrow> string" where
  "single_key path = ''STORAGE_'' @ path"

definition chunk_key :: "string \<Rightarrow> nat \<Rightarrow> string" where
  "chunk_key path index = ''STORAGE_'' @ path @ ''_CHUNK_'' @ show_nat index"

definition meta_key :: "string \<Rightarrow> string" where
  "meta_key path = ''STORAGE_'' @ path @ ''_META''"

text \<open>
  \<open>meta.metadata.chunkCount\<close> as a loop bound: with the field absent the comparison
  \<open>i < undefined\<close> is false and the loop body never runs.
\<close>

definition chunk_count_of :: "metadata \<Rightarrow> nat" where
  "chunk_count_of md = (case chunkCount md of None \<Rightarrow> 0 | Some n \<Rightarrow> n)"

subsection \<open>deleteFromStorage and the eviction pass\<close>

text \<open>
  \<open>deleteFromStorage\<close> removes the single-slot property, then, when a metadata property
  is there, the \<open>chunkCount\<close> chunk properties and the metadata property. When the
  metadata does not parse, or has no \<open>metadata\<close> field, the inner \<open>catch\<close> logs and
  nothing more is removed.
\<close>

definition deleteFromStorage :: "env \<Rightarrow> props \<Rightarrow> string \<Rightarrow> props" where
  "deleteFromStorage e s path =
     (let s1 = deleteProperty s (single_key path) in
      case getProperty s1 (meta_key path) of
        None \<Rightarrow> s1
      | Some metaData \<Rightarrow>
          if \<not> truthy metaData then s1
          else
            (case JSON_parse e metaData of
               Some (JObject c (Some md) t r) \<Rightarrow>
                 deleteProperty
                   (fold (\<lambda>i st. deleteProperty st (chunk_key path i))
                      [0..<chunk_count_of md] s1)
                   (meta_key path)
             | _ \<Rightarrow> s1))"

text \<open>
  The filter of \<open>autoCleanupIfNeeded\<close> and \<open>cleanupOldStorageEntries\<close>, and the test
  that selects an entry for removal: its value does not parse (the \<open>catch\<close> branch), or
  its \<open>metadata.timestamp\<close> is before the cutoff.
\<close>

definition is_storage_entry_key :: "string \<Rightarrow> bool" where
  "is_storage_entry_key key =
     (startsWith key ''STORAGE_'' \<and> \<not> str_includes key ''_CHUNK_'' \<and> \<not> endsWith key ''_META'')"

definition entry_expired :: "env \<Rightarrow> int \<Rightarrow> pval \<Rightarrow> bool" where
  "entry_expired e cutoffTime v =
     (case JSON_parse e v of
        None \<Rightarrow> True
      | Some JNull \<Rightarrow> True
      | Some (JObject c None t r) \<Rightarrow> False
      | Some (JObject c (Some md) t r) \<Rightarrow>
          (case timestamp md of None \<Rightarrow> False | Some entryTime \<Rightarrow> entryTime < cutoffTime))"

definition cleanupOldStorageEntries :: "env \<Rightarrow> int \<Rightarrow> props \<Rightarrow> int \<Rightarrow> props" where
  "cleanupOldStorageEntries e now s olderThanHours =
     (let cutoffTime = now - olderThanHours * 60 * 60 * 1000;
          entriesToClean =
            map (\<lambda>(key, v). drop (length ''STORAGE_'') key)
              (filter (\<lambda>(key, v). is_storage_entry_key key \<and> entry_expired e cutoffTime v) s)
      in fold (\<lambda>path st. deleteFromStorage e st path) entriesToClean s)"

definition autoCleanupIfNeeded :: "env \<Rightarrow> int \<Rightarrow> props \<Rightarrow> props" where
  "autoCleanupIfNeeded e now s =
     (let storageKeys = filter is_storage_entry_key (map fst s) in
      if length storageKeys > maxEntries STORAGE_CONFIG
      then cleanupOldStorageEntries e now s (maxAge STORAGE_CONFIG)
      else s)"

subsection \<open>saveToStorage\<close>

text \<open>
  The splitting loop \<open>for (let i = 0; i < content.length; i += maxChunkSize)\<close>, started
  at \<open>i\<close>. It terminates because \<open>maxChunkSize\<close> is the positive constant of
  \<open>STORAGE_CONFIG\<close>.
\<close>

function save_chunks :: "string \<Rightarrow> nat \<Rightarrow> string list" where
  "save_chunks content i =
     (if i < length content
      then substring content i (i + maxChunkSize STORAGE_CONFIG)
             # save_chunks content (i + maxChunkSize STORAGE_CONFIG)
      else [])"
  by pat_completeness auto
termination
  by (relation "measure (\<lambda>(content, i). length content - i)")
     (auto simp: STORAGE_CONFIG_def)

declare save_chunks.simps [simp del]

text \<open>
  \<open>chunks.forEach((chunk, index) => setProperty(...))\<close>: the first refused write ends
  the loop with its error, and the chunks written before it stay in the store.
\<close>

fun write_chunks :: "env \<Rightarrow> props \<Rightarrow> string \<Rightarrow> string list \<Rightarrow> nat \<Rightarrow> props \<times> string option" where
  "write_chunks e s path [] index = (s, None)"
| "write_chunks e s path (chunk # rest) index =
     (case setProperty e s (chunk_key path index) (Text chunk) of
        (s1, Some err) \<Rightarrow> (s1, Some err)
      | (s1, None) \<Rightarrow> write_chunks e s1 path rest (Suc index))"

text \<open>
  The \<open>data\<close> argument is a string, or another value that is stored as its JSON text.
  The result is the object returned to the caller: \<open>{success: true, path, size, chunked,
  chunkCount}\<close>, or \<open>{success: false, error}\<close> from the \<open>catch\<close> block.
\<close>

datatype payload = DString string | DValue json

datatype save_result =
  SaveOk (r_path: string) (r_size: nat) (r_chunked: bool) (r_chunkCount: "nat option")
| SaveFailed (r_error: string)

definition success :: "save_result \<Rightarrow> bool" where
  "success r = (case r of SaveOk p n c k \<Rightarrow> True | SaveFailed err \<Rightarrow> False)"

text \<open>
  \<open>saveToStorage(path, data, metadata)\<close> at clock reading \<open>now\<close>, on the store \<open>s\<close>.
  The function compares the payload with \<open>maxChunkSize\<close> only; \<open>maxTotalSize\<close> is not
  read anywhere in it.
\<close>

definition saveToStorage ::
  "env \<Rightarrow> int \<Rightarrow> props \<Rightarrow> string \<Rightarrow> payload \<Rightarrow> metadata \<Rightarrow> props \<times> save_result" where
  "saveToStorage e now s path data md =
     (let content = (case data of DString t \<Rightarrow> t | DValue j \<Rightarrow> json_text e j);
          s0 = (if autoCleanup STORAGE_CONFIG then autoCleanupIfNeeded e now s else s)
      in
      if length content \<le> maxChunkSize STORAGE_CONFIG then
        (case setProperty e s0 (single_key path)
                (Json (JObject (Some content)
                   (Some (md\<lparr>timestamp := Some now, size_m := Some (length content),
                               chunked := Some False\<rparr>)) None None)) of
           (s1, Some err) \<Rightarrow> (s1, SaveFailed err)
         | (s1, None) \<Rightarrow> (s1, SaveOk path (length content) False None))
      else
        (let chunks = save_chunks content 0 in
         case write_chunks e s0 path chunks 0 of
           (s1, Some err) \<Rightarrow> (s1, SaveFailed err)
         | (s1, None) \<Rightarrow>
             (case setProperty e s1 (meta_key path)
                     (Json (JObject None
                        (Some (md\<lparr>timestamp := Some now, size_m := Some (length content),
                                    chunked := Some True,
                                    chunkCount := Some (length chunks)\<rparr>)) None None)) of
                (s2, Some err) \<Rightarrow> (s2, SaveFailed err)
              | (s2, None) \<Rightarrow> (s2, SaveOk path (length content) True (Some (length chunks))))))"

subsection \<open>loadFromStorage\<close>

text \<open>
  The result \<open>{content, metadata}\<close>; \<open>None\<close> for the function is \<open>null\<close> (not found,
  or the \<open>catch\<close> block). The reconstruction loop appends every chunk property that is
  there and non-empty; for one that is missing it logs \<open>Missing chunk\<close> and goes on.
\<close>

record load_result =
  lr_content :: "string option"
  lr_metadata :: metadata

definition read_chunks :: "env \<Rightarrow> props \<Rightarrow> string \<Rightarrow> nat \<Rightarrow> string" where
  "read_chunks e s path chunkCount' =
     fold (\<lambda>i reconstructedContent.
             case getProperty s (chunk_key path i) of
               None \<Rightarrow> reconstructedContent
             | Some chunk \<Rightarrow>
                 if truthy chunk then reconstructedContent @ text_of e chunk
                 else reconstructedContent)
       [0..<chunkCount'] []"

definition loadFromStorage :: "env \<Rightarrow> props \<Rightarrow> string \<Rightarrow> load_result option" where
  "loadFromStorage e s path =
     (case (case getProperty s (single_key path) of
              None \<Rightarrow> None | Some v \<Rightarrow> if truthy v then Some v else None) of
        Some singleData \<Rightarrow>
          (case JSON_parse e singleData of
             None \<Rightarrow> None
           | Some JNull \<Rightarrow> None
           | Some (JObject c md t r) \<Rightarrow>
               Some \<lparr>lr_content = c,
                     lr_metadata = (case md of None \<Rightarrow> no_metadata | Some m \<Rightarrow> m)\<rparr>)
      | None \<Rightarrow>
          (case (case getProperty s (meta_key path) of
                   None \<Rightarrow> None | Some v \<Rightarrow> if truthy v then Some v else None) of
             Some metaData \<Rightarrow>
               (case JSON_parse e metaData of
                  Some (JObject c (Some md) t r) \<Rightarrow>
                    Some \<lparr>lr_content = Some (read_chunks e s path (chunk_count_of md)),
                          lr_metadata = md\<rparr>
                | _ \<Rightarrow> None)
           | None \<Rightarrow> None))"

subsection \<open>Concrete inputs\<close>

text \<open>
  A property service that accepts every write, with no raw text that parses as JSON.
\<close>

definition env0 :: env where
  "env0 = \<lparr>rejects = (\<lambda>s k v. None), parse_text = (\<lambda>t. None), json_text = (\<lambda>j. [])\<rparr>"


text \<open>
  "The store has no single-slot entry under \<open>path\<close>": the first probe of
  \<open>loadFromStorage\<close> misses.
\<close>

definition single_free :: "props \<Rightarrow> string \<Rightarrow> bool" where
  "single_free s path =
     (case getProperty s (single_key path) of None \<Rightarrow> True | Some v \<Rightarrow> \<not> truthy v)"

text \<open>
  The stores left by one write under the path \<open>k\<close>: of a payload of 450,001 characters
  at clock reading 1, and of a payload \<open>p\<close> that fits in one slot.
\<close>

definition chunked_store_k :: props where
  "chunked_store_k =
     [(''STORAGE_k_CHUNK_0'', Text (replicate 450000 (CHR ''a''))),
      (''STORAGE_k_CHUNK_1'', Text ''a''),
      (''STORAGE_k_META'', Json (JObject None
          (Some (no_metadata\<lparr>timestamp := Some 1, size_m := Some 450001,
                              chunked := Some True, chunkCount := Some 2\<rparr>)) None None))]"

definition single_store_k :: "int \<Rightarrow> string \<Rightarrow> props" where
  "single_store_k now p =
     [(''STORAGE_k'', Json (JObject (Some p)
          (Some (no_metadata\<lparr>timestamp := Some now, size_m := Some (length p),
                              chunked := Some False\<rparr>)) None None))]"

section \<open>Completion tracker (Utils.gs, page status control)\<close>

text \<open>
  The page status control is a JSON file per page in a Drive folder. An item record keeps
  the fields the tracker writes; the descriptive fields of a sub-block (\<open>sourceType\<close>,
  \<open>url\<close>, \<open>title\<close>) are carried along unchanged by the code and are left out.
  \<open>subBlocks\<close> holds the own properties of the parsed object, keyed by item id.
\<close>

record item =
  itemId :: string
  contentId :: string
  status :: string
  taskId :: "string option"
  processedFile :: "string option"
  completedAt :: "int option"

record tracking =
  mainPage :: item
  subBlocks :: "string \<rightharpoonup> item"
  totalItems :: int
  totalSubBlocks :: int
  completedItems :: int
  pendingItems :: int

record finalProcessing =
  fp_allCompleted :: bool
  fp_finalSummaryCreated :: bool
  fp_webhookSent :: bool
  fp_finalSummaryFile :: "string option"
  fp_completedAt :: "int option"

record statusControl =
  pageId :: string
  pageTitle :: string
  initialized :: int
  lastUpdated :: int
  tracking :: tracking
  finalProcessing :: finalProcessing

text \<open>
  The Drive folder, as the status control that the file \<open>page_status_<pageId>.json\<close>
  holds for each page id. Whether a Drive call throws is a parameter: \<open>load_throws\<close>
  and \<open>save_throws\<close> for the two functions below (both catch the error and return
  \<open>null\<close>), \<open>summary_throws\<close> and \<open>webhook_fails\<close> for the final processing;
  \<open>stamp\<close> is the time stamp used in file names.
\<close>

type_synonym drive = "string \<rightharpoonup> statusControl"

record faults =
  load_throws :: bool
  save_throws :: bool
  summary_throws :: bool
  webhook_fails :: bool
  stamp :: string

text \<open>
  \<open>loadPageStatusControl\<close> returns \<open>null\<close> on an error, and otherwise an object
  whose \<open>status\<close> is the stored control or \<open>null\<close>. \<open>savePageStatusControl\<close>
  stamps \<open>lastUpdated\<close>, writes the file and returns the saved control, or \<open>null\<close>
  on an error.
\<close>

definition loadPageStatusControl :: "faults \<Rightarrow> drive \<Rightarrow> string \<Rightarrow> statusControl option option" where
  "loadPageStatusControl f d pid = (if load_throws f then None else Some (d pid))"

definition savePageStatusControl ::
  "faults \<Rightarrow> int \<Rightarrow> drive \<Rightarrow> string \<Rightarrow> statusControl \<Rightarrow> drive \<times> statusControl option" where
  "savePageStatusControl f now d pid sc =
     (if save_throws f then (d, None)
      else (d(pid \<mapsto> sc\<lparr>lastUpdated := now\<rparr>), Some (sc\<lparr>lastUpdated := now\<rparr>)))"

text \<open>
  \<open>initializePageStatusControl(pageId, index)\<close>: every item starts as \<open>pending\<close>,
  \<open>completedItems\<close> is 0 and \<open>pendingItems\<close> is \<open>index.totalItems\<close>. Of the
  index the model keeps \<open>id\<close> and \<open>contentId\<close> of each entry, \<open>index.main.title\<close>
  (\<open>ix_title\<close>), the list \<open>index.subBlocks\<close> and \<open>index.totalItems\<close>. The
  assignment \<open>subBlocks[subBlock.id] = {...}\<close> creates an own property for every id
  except \<open>__proto__\<close>, for which it replaces the prototype of the object and leaves
  nothing that is written to the file.
\<close>

record index_item =
  ix_id :: string
  ix_contentId :: string

record page_index =
  ix_main :: index_item
  ix_title :: string
  ix_subBlocks :: "index_item list"
  ix_totalItems :: int

definition pending_item :: "index_item \<Rightarrow> item" where
  "pending_item b =
     \<lparr>itemId = ix_id b, contentId = ix_contentId b, status = ''pending'', taskId = None,
      processedFile = None, completedAt = None\<rparr>"

definition initializePageStatusControl ::
  "faults \<Rightarrow> int \<Rightarrow> drive \<Rightarrow> string \<Rightarrow> page_index \<Rightarrow> drive \<times> statusControl option" where
  "initializePageStatusControl f now d pid ix =
     savePageStatusControl f now d pid
       \<lparr>pageId = pid, pageTitle = ix_title ix, initialized = now, lastUpdated = now,
        tracking =
          \<lparr>mainPage = pending_item (ix_main ix),
           subBlocks =
             fold (\<lambda>subBlock m.
                     if ix_id subBlock = ''__proto__'' then m
                     else m(ix_id subBlock \<mapsto> pending_item subBlock))
               (ix_subBlocks ix) Map.empty,
           totalItems = ix_totalItems ix,
           totalSubBlocks = int (length (ix_subBlocks ix)),
           completedItems = 0,
           pendingItems = ix_totalItems ix\<rparr>,
        finalProcessing =
          \<lparr>fp_allCompleted = False, fp_finalSummaryCreated = False, fp_webhookSent = False,
           fp_finalSummaryFile = None, fp_completedAt = None\<rparr>\<rparr>"

text \<open>
  The object returned by \<open>updateItemStatusInControl\<close>:
  \<open>{...saved, allCompleted, readyForFinalProcessing}\<close>, where \<open>saved\<close> is the result of
  \<open>savePageStatusControl\<close> (whose \<open>statusControl\<close> field is missing when the save failed).
\<close>

record update_result =
  saved_statusControl :: "statusControl option"
  allCompleted :: bool
  readyForFinalProcessing :: bool

text \<open>
  An optional string used as a property name or inside a template literal: \<open>undefined\<close>
  reads as the text \<open>undefined\<close>. \<open>js_truthy\<close> is the truthiness of an optional
  string: \<open>undefined\<close>, \<open>null\<close> and the empty string are falsy.
\<close>

definition prop_name :: "string option \<Rightarrow> string" where
  "prop_name x = (case x of None \<Rightarrow> ''undefined'' | Some k \<Rightarrow> k)"

definition js_truthy :: "string option \<Rightarrow> bool" where
  "js_truthy x = (x \<noteq> None \<and> x \<noteq> Some [])"

text \<open>
  The test \<open>statusControl.tracking.subBlocks[itemId]\<close> is a property lookup on a parsed
  object: when \<open>subBlocks\<close> has no own property of that name, the lookup finds what every
  object inherits from \<open>Object.prototype\<close>. \<open>Object_prototype_names\<close> lists the
  properties of \<open>Object.prototype\<close> in the V8 runtime, which the syntax of the source
  requires; each denotes a built-in function, and
  \<open>__proto__\<close> denotes \<open>Object.prototype\<close> itself. All of them are truthy, so the
  sub-block branch runs on them: it reads their \<open>status\<close> and assigns \<open>status\<close>,
  \<open>taskId\<close>, \<open>processedFile\<close> and \<open>completedAt\<close> to the built-in object. A
  realm records what the running execution has assigned to the built-in objects, per name;
  an execution starts from \<open>fresh_realm\<close>.
\<close>

record assigned =
  a_status :: string
  a_taskId :: "string option"
  a_processedFile :: "string option"
  a_completedAt :: "int option"

type_synonym realm = "string \<rightharpoonup> assigned"

definition fresh_realm :: realm where
  "fresh_realm = Map.empty"

definition Object_prototype_names :: "string list" where
  "Object_prototype_names =
     [''constructor'', ''__defineGetter__'', ''__defineSetter__'', ''hasOwnProperty'',
      ''__lookupGetter__'', ''__lookupSetter__'', ''isPrototypeOf'', ''propertyIsEnumerable'',
      ''toString'', ''valueOf'', ''__proto__'', ''toLocaleString'']"

text \<open>
  What the lookup finds: an item of the control, a built-in object, or, once a call of the
  same execution has written on \<open>Object.prototype\<close>, one of the values written there,
  which every object then inherits under the names \<open>status\<close>, \<open>taskId\<close>,
  \<open>processedFile\<close> and \<open>completedAt\<close>, and which the test takes when it is truthy.
  Such a value is a string: its \<open>status\<close> is the inherited one, and an assignment to
  a property of a string is dropped. \<open>slot_status\<close> is the value read as
  \<open>previousStatus\<close>; \<open>None\<close> is \<open>undefined\<close>.
\<close>

datatype slot = Own item | Builtin string | Primitive

definition subBlock_slot :: "realm \<Rightarrow> (string \<rightharpoonup> item) \<Rightarrow> string \<Rightarrow> slot option" where
  "subBlock_slot rl sb key =
     (case sb key of
        Some it \<Rightarrow> Some (Own it)
      | None \<Rightarrow>
          if key \<in> set Object_prototype_names then Some (Builtin key)
          else
            (case rl ''__proto__'' of
               None \<Rightarrow> None
             | Some a \<Rightarrow>
                 if (key = ''status'' \<and> a_status a \<noteq> []) \<or>
                    (key = ''taskId'' \<and> js_truthy (a_taskId a)) \<or>
                    (key = ''processedFile'' \<and> js_truthy (a_processedFile a)) \<or>
                    (key = ''completedAt'' \<and> a_completedAt a \<noteq> None)
                 then Some Primitive else None))"

definition slot_status :: "realm \<Rightarrow> slot \<Rightarrow> string option" where
  "slot_status rl x =
     (case x of
        Own it \<Rightarrow> Some (status it)
      | Builtin b \<Rightarrow>
          (case rl b of
             Some a \<Rightarrow> Some (a_status a)
           | None \<Rightarrow> map_option a_status (rl ''__proto__''))
      | Primitive \<Rightarrow> map_option a_status (rl ''__proto__''))"

text \<open>
  The statements of the two branches of \<open>updateItemStatusInControl\<close>: the record takes
  the new status, task id and processed file; when the new status is \<open>completed\<close> and
  the previous one was not, it is stamped and the counters move (\<open>completedItems++\<close>,
  \<open>pendingItems--\<close>). \<open>mark_item\<close> does the assignments on an item of the control,
  \<open>mark_builtin\<close> on a built-in object, and \<open>count_item\<close> moves the counters.
\<close>

definition mark_item :: "int \<Rightarrow> item \<Rightarrow> string option \<Rightarrow> string \<Rightarrow> string option \<Rightarrow> item" where
  "mark_item now it tid newStatus file =
     (let previousStatus = status it;
          it1 = it\<lparr>status := newStatus, taskId := tid, processedFile := file\<rparr>
      in if newStatus = ''completed'' \<and> previousStatus \<noteq> ''completed''
         then it1\<lparr>completedAt := Some now\<rparr> else it1)"

definition mark_builtin ::
  "int \<Rightarrow> realm \<Rightarrow> string \<Rightarrow> string option \<Rightarrow> string \<Rightarrow> string option \<Rightarrow> realm" where
  "mark_builtin now rl b tid newStatus file =
     (let previousStatus = slot_status rl (Builtin b);
          a1 = \<lparr>a_status = newStatus, a_taskId = tid, a_processedFile = file,
                a_completedAt = (case rl b of None \<Rightarrow> None | Some a \<Rightarrow> a_completedAt a)\<rparr>
      in if newStatus = ''completed'' \<and> previousStatus \<noteq> Some ''completed''
         then rl(b \<mapsto> a1\<lparr>a_completedAt := Some now\<rparr>) else rl(b \<mapsto> a1))"

definition count_item :: "tracking \<Rightarrow> string option \<Rightarrow> string \<Rightarrow> tracking" where
  "count_item tr previousStatus newStatus =
     (if newStatus = ''completed'' \<and> previousStatus \<noteq> Some ''completed''
      then tr\<lparr>completedItems := completedItems tr + 1, pendingItems := pendingItems tr - 1\<rparr>
      else tr)"

text \<open>
  \<open>updateItemStatusInControl(pageId, itemId, contentType, taskId, status, processedFile)\<close>
  in the realm \<open>rl\<close>, on the Drive folder \<open>d\<close>. It returns \<open>null\<close> when no control
  is stored for the page or the lookup finds nothing. After saving, \<open>allCompleted\<close> is
  the comparison \<open>completedItems === totalItems\<close> on the updated control.
\<close>

definition updateItemStatusInControl ::
  "faults \<Rightarrow> int \<Rightarrow> realm \<Rightarrow> drive \<Rightarrow> string \<Rightarrow> string option \<Rightarrow> string option
     \<Rightarrow> string option \<Rightarrow> string \<Rightarrow> string option \<Rightarrow> realm \<times> drive \<times> update_result option" where
  "updateItemStatusInControl f now rl d pid iid contentType tid newStatus file =
     (case loadPageStatusControl f d pid of
        None \<Rightarrow> (rl, d, None)
      | Some None \<Rightarrow> (rl, d, None)
      | Some (Some sc) \<Rightarrow>
          (let tr = tracking sc;
               updated =
                 (if contentType = Some ''main_page'' \<and> Some (itemId (mainPage tr)) = iid then
                    Some (rl, (count_item tr (Some (status (mainPage tr))) newStatus)
                                \<lparr>mainPage := mark_item now (mainPage tr) tid newStatus file\<rparr>)
                  else if contentType = Some ''sub_block'' then
                    (case subBlock_slot rl (subBlocks tr) (prop_name iid) of
                       None \<Rightarrow> None
                     | Some (Own it) \<Rightarrow>
                         Some (rl, (count_item tr (Some (status it)) newStatus)
                                     \<lparr>subBlocks := (subBlocks tr)(prop_name iid \<mapsto>
                                                     mark_item now it tid newStatus file)\<rparr>)
                     | Some (Builtin b) \<Rightarrow>
                         Some (mark_builtin now rl b tid newStatus file,
                               count_item tr (slot_status rl (Builtin b)) newStatus)
                     | Some Primitive \<Rightarrow>
                         Some (rl, count_item tr (slot_status rl Primitive) newStatus))
                  else None)
           in case updated of
                None \<Rightarrow> (rl, d, None)
              | Some (rl1, tr1) \<Rightarrow>
                  (case savePageStatusControl f now d pid (sc\<lparr>tracking := tr1\<rparr>) of
                     (d1, saved) \<Rightarrow>
                       (rl1, d1,
                        Some \<lparr>saved_statusControl = saved,
                              allCompleted = (completedItems tr1 = totalItems tr1),
                              readyForFinalProcessing = (completedItems tr1 = totalItems tr1)\<rparr>))))"

text \<open>
  The status recorded for the item of the control that a call addresses (\<open>None\<close> when
  it addresses no item of the control), and the value that a call reads as
  \<open>previousStatus\<close>.
\<close>

definition item_status :: "statusControl \<Rightarrow> string option \<Rightarrow> string option \<Rightarrow> string option" where
  "item_status sc contentType iid =
     (if contentType = Some ''main_page'' \<and> Some (itemId (mainPage (tracking sc))) = iid
      then Some (status (mainPage (tracking sc)))
      else if contentType = Some ''sub_block''
      then map_option status (subBlocks (tracking sc) (prop_name iid))
      else None)"

definition previous_status ::
  "realm \<Rightarrow> statusControl \<Rightarrow> string option \<Rightarrow> string option \<Rightarrow> string option" where
  "previous_status rl sc contentType iid =
     (if contentType = Some ''main_page'' \<and> Some (itemId (mainPage (tracking sc))) = iid
      then Some (status (mainPage (tracking sc)))
      else if contentType = Some ''sub_block''
      then (case subBlock_slot rl (subBlocks (tracking sc)) (prop_name iid) of
              None \<Rightarrow> None
            | Some x \<Rightarrow> slot_status rl x)
      else None)"

text \<open>
  A page with two items, the main page and the sub-block \<open>b1\<close>: its index, its control
  (with the completion times of the two items, the number of completed items and the time
  of the last update as parameters), and a call that marks an item as completed.
\<close>

definition no_faults :: faults where
  "no_faults = \<lparr>load_throws = False, save_throws = False, summary_throws = False,
                 webhook_fails = False, stamp = ''T''\<rparr>"

definition page2_index :: page_index where
  "page2_index =
     \<lparr>ix_main = \<lparr>ix_id = ''main'', ix_contentId = ''c0''\<rparr>, ix_title = ''Page'',
      ix_subBlocks = [\<lparr>ix_id = ''b1'', ix_contentId = ''c1''\<rparr>], ix_totalItems = 2\<rparr>"

definition item_at :: "string \<Rightarrow> string \<Rightarrow> int option \<Rightarrow> item" where
  "item_at iid cid done =
     (case done of
        None \<Rightarrow> \<lparr>itemId = iid, contentId = cid, status = ''pending'', taskId = None,
                  processedFile = None, completedAt = None\<rparr>
      | Some t \<Rightarrow> \<lparr>itemId = iid, contentId = cid, status = ''completed'', taskId = Some ''task'',
                    processedFile = Some ''file'', completedAt = Some t\<rparr>)"

definition page2_control :: "int option \<Rightarrow> int option \<Rightarrow> int \<Rightarrow> int \<Rightarrow> statusControl" where
  "page2_control mainDone subDone n updated =
     \<lparr>pageId = ''p1'', pageTitle = ''Page'', initialized = 0, lastUpdated = updated,
      tracking =
        \<lparr>mainPage = item_at ''main'' ''c0'' mainDone,
         subBlocks = [''b1'' \<mapsto> item_at ''b1'' ''c1'' subDone],
         totalItems = 2, totalSubBlocks = 1,
         completedItems = n, pendingItems = 2 - n\<rparr>,
      finalProcessing =
        \<lparr>fp_allCompleted = False, fp_finalSummaryCreated = False, fp_webhookSent = False,
         fp_finalSummaryFile = None, fp_completedAt = None\<rparr>\<rparr>"

definition mark_completed ::
  "int \<Rightarrow> realm \<Rightarrow> statusControl \<Rightarrow> string \<Rightarrow> string
     \<Rightarrow> realm \<times> drive \<times> update_result option" where
  "mark_completed now rl sc contentType iid =
     updateItemStatusInControl no_faults now rl [''p1'' \<mapsto> sc] ''p1'' (Some iid)
       (Some contentType) (Some ''task'') ''completed'' (Some ''file'')"

section \<open>Callback handler (doPost\_HandleZapierLLMResult, findPageIdByTaskId)\<close>



















section \<open>Combination of chunk results (NotionAPI.gs, combineChunkResults)\<close>








section \<open>Properties of the chunker\<close>

subsection \<open>The rounded threshold\<close>

lemma low_bits_div: "n div 2 ^ low_bits n < 2 ^ 53"
proof (induction n rule: low_bits.induct)
  case (1 n)
  show ?case
  proof (cases "n < 2 ^ 53")
    case True
    then show ?thesis by (subst low_bits.simps) simp
  next
    case False
    have "n div 2 ^ Suc (low_bits (n div 2)) = n div 2 div 2 ^ low_bits (n div 2)"
      by (simp add: div_mult2_eq)
    then show ?thesis using 1[OF False] False
      by (subst low_bits.simps) (simp del: power_Suc)
  qed
qed

lemma low_bits_ge: "0 < low_bits n \<Longrightarrow> 2 ^ 52 \<le> n div 2 ^ low_bits n"
proof (induction n rule: low_bits.induct)
  case (1 n)
  have big: "\<not> n < 2 ^ 53"
    using "1.prems" by (subst (asm) low_bits.simps) (simp split: if_splits)
  have eq: "low_bits n = Suc (low_bits (n div 2))"
    using big by (subst low_bits.simps) simp
  have d: "n div 2 ^ Suc (low_bits (n div 2)) = n div 2 div 2 ^ low_bits (n div 2)"
    by (simp add: div_mult2_eq)
  show ?case
  proof (cases "0 < low_bits (n div 2)")
    case True
    from 1(1)[OF big True] show ?thesis unfolding eq d .
  next
    case False
    then have z: "low_bits (n div 2) = 0" by simp
    have "(2::nat) ^ 52 \<le> n div 2" using big by simp
    then show ?thesis unfolding eq d z by simp
  qed
qed


lemma round_double_floor:
  "(n div 2 ^ low_bits n) * 2 ^ low_bits n \<le> round_double n"
proof -
  have "(n div 2 ^ low_bits n) * 2 ^ low_bits n \<le> n"
    by (rule div_times_less_eq_dividend)
  then show ?thesis
    by (auto simp: round_double_def Let_def)
qed

lemma round_double_lower:
  assumes "a < 2 ^ 53" "a * 2 ^ 53 \<le> n"
  shows "a * 2 ^ 53 \<le> round_double n"
proof -
  let ?k = "low_bits n"
  let ?q = "n div 2 ^ ?k"
  have "a * 2 ^ 53 \<le> ?q * 2 ^ ?k"
  proof (cases "?k \<le> 53")
    case True
    then have p: "(2::nat) ^ 53 = 2 ^ (53 - ?k) * 2 ^ ?k"
      by (simp flip: power_add)
    have m: "a * 2 ^ 53 = (a * 2 ^ (53 - ?k)) * 2 ^ ?k"
      by (simp only: p mult.assoc)
    from assms(2) have "(a * 2 ^ (53 - ?k)) * 2 ^ ?k \<le> n" unfolding m .
    then have "a * 2 ^ (53 - ?k) \<le> ?q"
      by (simp only: less_eq_div_iff_mult_less_eq zero_less_power zero_less_numeral)
    then have "(a * 2 ^ (53 - ?k)) * 2 ^ ?k \<le> ?q * 2 ^ ?k"
      by (rule mult_le_mono1)
    then show ?thesis unfolding m .
  next
    case False
    then have k: "54 \<le> ?k" by simp
    then have "(2::nat) ^ 52 \<le> ?q" by (intro low_bits_ge) simp
    then have 1: "(2::nat) ^ 52 * 2 ^ ?k \<le> ?q * 2 ^ ?k" by (rule mult_le_mono1)
    have "(2::nat) ^ 54 \<le> 2 ^ ?k" using k by (intro power_increasing) simp_all
    then have 2: "(2::nat) ^ 52 * 2 ^ 54 \<le> 2 ^ 52 * 2 ^ ?k" by (rule mult_le_mono2)
    have "a * 2 ^ 53 \<le> 2 ^ 53 * (2::nat) ^ 53" using assms(1) by (intro mult_le_mono1) simp
    also have "\<dots> = (2::nat) ^ 52 * 2 ^ 54" by simp
    finally show ?thesis using 1 2 by linarith
  qed
  then show ?thesis using round_double_floor[of n] by linarith
qed


lemma above_threshold_gt:
  assumes "cur < 2 ^ 53" "above_threshold x cur m"
  shows "int cur < x"
proof -
  have "cur * 2 ^ 53 \<le> round_double (cur * 2 ^ 53 + round_double (m * double_0_7))"
    using assms(1) by (intro round_double_lower) simp_all
  then have "int (cur * 2 ^ 53) < x * 2 ^ 53"
    using assms(2) unfolding above_threshold_def by linarith
  then show ?thesis by simp
qed




subsection \<open>The search and the loop\<close>

lemma lastIndexOf_down_le: "lastIndexOf_down s pat i \<le> int i"
  by (induction i) auto

lemma lastIndexOf_down_ge: "- 1 \<le> lastIndexOf_down s pat i"
  by (induction i) auto

lemma lastIndexOf_down_match:
  "0 \<le> lastIndexOf_down s pat i \<Longrightarrow>
   take (length pat) (drop (nat (lastIndexOf_down s pat i)) s) = pat"
proof (induction i)
  case 0
  then show ?case by (auto split: if_splits)
next
  case (Suc i)
  have "nat (1 + int i) = Suc i" by simp
  with Suc show ?case by (auto split: if_splits)
qed

lemma lastIndexOf_down_upper:
  "\<forall>j. b < j \<and> j \<le> i \<longrightarrow> take (length pat) (drop j s) \<noteq> pat \<Longrightarrow>
   lastIndexOf_down s pat i \<le> int b"
proof (induction i)
  case 0
  then show ?case by (cases "b = 0") auto
next
  case (Suc i)
  show ?case
  proof (cases "b < Suc i")
    case True
    with Suc.prems have "take (length pat) (drop (Suc i) s) \<noteq> pat" by simp
    moreover have "lastIndexOf_down s pat i \<le> int b"
      using Suc.IH Suc.prems by (cases "b \<le> i") (auto intro: order_trans[OF lastIndexOf_down_le])
    ultimately show ?thesis by simp
  next
    case False
    then show ?thesis
      using lastIndexOf_down_le[of s pat "Suc i"] by linarith
  qed
qed

lemma lastIndexOf_down_eq:
  "i \<le> n \<Longrightarrow> take (length pat) (drop i s) = pat \<Longrightarrow>
   \<forall>j. i < j \<and> j \<le> n \<longrightarrow> take (length pat) (drop j s) \<noteq> pat \<Longrightarrow>
   lastIndexOf_down s pat n = int i"
proof (induction n)
  case 0
  then show ?case by simp
next
  case (Suc n)
  show ?case
  proof (cases "i = Suc n")
    case True
    with Suc.prems show ?thesis by simp
  next
    case False
    with Suc.prems have "i \<le> n" by simp
    moreover from Suc.prems False have "take (length pat) (drop (Suc n) s) \<noteq> pat" by auto
    ultimately show ?thesis using Suc by simp
  qed
qed

lemma lastIndexOf_le: "lastIndexOf s pat n \<le> int n"
  unfolding lastIndexOf_def
  using lastIndexOf_down_le[of s pat "min n (length s)"] by linarith

lemma lastIndexOf_char0:
  assumes "0 \<le> lastIndexOf s [p, q] n"
  shows "nat (lastIndexOf s [p, q] n) < length s \<and> s ! nat (lastIndexOf s [p, q] n) = p"
proof -
  let ?i = "nat (lastIndexOf s [p, q] n)"
  have m: "take (length [p, q]) (drop ?i s) = [p, q]"
    using lastIndexOf_down_match[of s "[p, q]" "min n (length s)"] assms
    by (simp only: lastIndexOf_def)
  then obtain ys where ys: "drop ?i s = p # ys"
    by (cases "drop ?i s") auto
  then have lt: "?i < length s"
    by (metis drop_all list.distinct(1) not_le)
  from ys lt have "s ! ?i = p"
    by (metis hd_drop_conv_nth list.sel(1))
  with lt show ?thesis by simp
qed

lemma next_chunkEnd_last: "length s \<le> cur + m \<Longrightarrow> next_chunkEnd s m cur = cur + m"
  by (simp add: next_chunkEnd_def)

lemma next_chunkEnd_bounds:
  assumes lo: "lo < m"
    and thr: "\<And>x. above_threshold x cur m \<Longrightarrow> int (cur + lo) < x"
    and more: "cur + m < length s"
  shows "cur + lo < next_chunkEnd s m cur"
    and "next_chunkEnd s m cur \<le> cur + m + 1"
    and "cur + m < next_chunkEnd s m cur \<Longrightarrow> s ! (next_chunkEnd s m cur - 1) = CHR ''.''"
proof -
  let ?pb = "lastIndexOf s ''\<newline>\<newline>'' (cur + m)"
  let ?sb = "lastIndexOf s ''. '' (cur + m)"
  have pb: "?pb \<le> int (cur + m)" and sb: "?sb \<le> int (cur + m)"
    by (rule lastIndexOf_le)+
  have tp: "above_threshold ?pb cur m \<Longrightarrow> int (cur + lo) < ?pb"
    and ts: "above_threshold ?sb cur m \<Longrightarrow> int (cur + lo) < ?sb"
    by (rule thr, assumption)+
  show "cur + lo < next_chunkEnd s m cur"
    using lo more tp ts by (auto simp: next_chunkEnd_def Let_def)
  show "next_chunkEnd s m cur \<le> cur + m + 1"
    using more pb sb by (auto simp: next_chunkEnd_def Let_def)
  show "s ! (next_chunkEnd s m cur - 1) = CHR ''.''" if gt: "cur + m < next_chunkEnd s m cur"
  proof -
    have e: "next_chunkEnd s m cur = nat (?sb + 1)" and "0 \<le> ?sb"
      using more pb gt tp ts by (auto simp: next_chunkEnd_def Let_def split: if_splits)
    then show ?thesis using lastIndexOf_char0[of s "CHR ''.''" "CHR '' ''" "cur + m"]
      by (simp add: nat_add_distrib)
  qed
qed

lemma substring_take_drop: "a \<le> b \<Longrightarrow> substring s a b = take (b - a) (drop a s)"
  by (simp add: substring_def max_def min_def)

lemma substring_append_drop: "a \<le> b \<Longrightarrow> substring s a b @ drop b s = drop a s"
proof -
  assume ab: "a \<le> b"
  have "drop b s = drop (b - a) (drop a s)" using ab by simp
  then show ?thesis using ab by (simp add: substring_take_drop del: drop_drop)
qed

lemma length_substring: "a \<le> b \<Longrightarrow> length (substring s a b) = min (b - a) (length s - a)"
  by (simp add: substring_take_drop)

lemma chunks_ok_done: "length s \<le> cur \<Longrightarrow> chunks_ok s m lo cur cs \<Longrightarrow> cs = []"
  by (cases cs) (auto simp: chunks_ok_def)

lemma chunk_loop_spec:
  assumes lo: "lo < m"
    and thr: "\<And>cur x. cur < length s \<Longrightarrow> above_threshold x cur m \<Longrightarrow> int (cur + lo) < x"
  shows "\<exists>cs. chunk_loop s m cur acc = Some (acc @ cs) \<and> chunks_ok s m lo cur cs"
proof (induction "length s - cur" arbitrary: cur acc rule: less_induct)
  case less
  show ?case
  proof (cases "cur < length s")
    case False
    then have "chunk_loop s m cur acc = Some (acc @ [])"
      by (subst chunk_loop.simps) simp
    moreover have "chunks_ok s m lo cur []" using False by (simp add: chunks_ok_def)
    ultimately show ?thesis by blast
  next
    case True
    let ?e = "next_chunkEnd s m cur"
    let ?c = "substring s cur ?e"
    have gt: "cur < ?e"
    proof (cases "cur + m < length s")
      case False
      then show ?thesis using lo by (simp add: next_chunkEnd_last)
    next
      case lt: True
      from next_chunkEnd_bounds(1)[OF lo thr[OF True] lt] show ?thesis by simp
    qed
    have "length s - ?e < length s - cur" using gt True by simp
    from less[OF this, of "acc @ [?c]"]
    obtain cs where cs: "chunk_loop s m ?e (acc @ [?c]) = Some ((acc @ [?c]) @ cs)"
      and ok: "chunks_ok s m lo ?e cs" by blast
    have run: "chunk_loop s m cur acc = Some (acc @ (?c # cs))"
      using True cs by (subst chunk_loop.simps) simp
    have cat: "concat (?c # cs) = drop cur s"
      using ok gt by (simp add: chunks_ok_def substring_append_drop less_imp_le)
    have len_c: "length ?c = min (?e - cur) (length s - cur)"
      using gt by (simp add: length_substring less_imp_le)
    have c_ne: "?c \<noteq> []" using len_c gt True by (cases "?c") auto
    have c_props: "length ?c \<le> m + 1 \<and> (last ?c \<noteq> CHR ''.'' \<longrightarrow> length ?c \<le> m)
         \<and> (?e < length s \<longrightarrow> cur + lo < ?e)
         \<and> (length s \<le> ?e \<longrightarrow> cs = [])"
    proof (cases "cur + m < length s")
      case False
      then have e: "?e = cur + m" by (simp add: next_chunkEnd_last)
      have "length s \<le> ?e" using e False by simp
      then have "cs = []" using ok by (rule chunks_ok_done)
      moreover have "length ?c \<le> m" using e len_c False by simp
      ultimately show ?thesis using e lo by simp
    next
      case lt: True
      note b = next_chunkEnd_bounds[OF lo thr[OF True] lt]
      have ele: "?e \<le> length s" using b(2) lt by simp
      then have lc: "length ?c = ?e - cur" using len_c by simp
      have lastc: "last ?c = s ! (?e - 1)"
      proof -
        have "last ?c = ?c ! (length ?c - 1)" using c_ne by (simp add: last_conv_nth)
        also have "\<dots> = s ! (cur + (?e - cur - 1))"
          using gt ele lc by (simp add: substring_take_drop less_imp_le)
        finally show ?thesis using gt by simp
      qed
      have "cs = []" if "length s \<le> ?e"
        using that ok by (rule chunks_ok_done)
      moreover have "length ?c \<le> m + 1" using b(2) lc by simp
      moreover have "length ?c \<le> m" if "last ?c \<noteq> CHR ''.''"
      proof -
        have "\<not> cur + m < ?e" using b(3) that lastc by auto
        then show ?thesis using lc by simp
      qed
      ultimately show ?thesis using b(1) by (simp add: not_le)
    qed
    have "chunks_ok s m lo cur (?c # cs)"
      unfolding chunks_ok_def
    proof (intro conjI impI ballI)
      show "concat (?c # cs) = drop cur s" by (rule cat)
    next
      fix c assume "c \<in> set (?c # cs)"
      then show "c \<noteq> []" using c_ne ok by (auto simp: chunks_ok_def)
    next
      fix c assume "c \<in> set (?c # cs)"
      then show "length c \<le> m + 1" using c_props ok by (auto simp: chunks_ok_def)
    next
      fix c assume "c \<in> set (?c # cs)" "last c \<noteq> CHR ''.''"
      then show "length c \<le> m" using c_props ok by (auto simp: chunks_ok_def)
    next
      show "?c # cs \<noteq> []" by simp
    next
      show "lo * (length (?c # cs) - 1) < length s - cur"
      proof (cases "?e < length s")
        case False
        then have "cs = []" using c_props by simp
        then show ?thesis using True by simp
      next
        case lt: True
        then have ne: "cs \<noteq> []" and cnt: "lo * (length cs - 1) < length s - ?e"
          using ok by (simp_all add: chunks_ok_def)
        from ne have "length cs = Suc (length cs - 1)" by (cases cs) simp_all
        then have "lo * length cs = lo * (length cs - 1) + lo"
          by (metis mult_Suc_right add.commute)
        moreover have "cur + lo < ?e" using c_props lt by simp
        ultimately show ?thesis using cnt lt gt by simp
      qed
    qed
    with run show ?thesis by blast
  qed
qed


lemma match2_iff:
  "take (Suc (Suc 0)) (drop j s) = [p, q] \<longleftrightarrow> Suc j < length s \<and> s ! j = p \<and> s ! Suc j = q"
proof (cases "Suc j < length s")
  case True
  then have "drop j s = s ! j # s ! Suc j # drop (Suc (Suc j)) s"
    by (metis Cons_nth_drop_Suc Suc_lessD)
  then show ?thesis using True by simp
next
  case False
  then have "length (take (Suc (Suc 0)) (drop j s)) < 2" by auto
  then have "take (Suc (Suc 0)) (drop j s) \<noteq> [p, q]"
    by (metis length_Cons list.size(3) less_irrefl numeral_2_eq_2)
  then show ?thesis using False by simp
qed

lemma above_threshold_neg: "x < 0 \<Longrightarrow> \<not> above_threshold x cur m"
proof -
  assume "x < 0"
  then have "x * 2 ^ 53 < 0" by (simp add: mult_less_0_iff)
  then show ?thesis unfolding above_threshold_def by linarith
qed

lemma lastIndexOf_absent:
  assumes "p \<notin> set s"
  shows "lastIndexOf s [p, q] n < 0"
proof (rule ccontr)
  assume "\<not> lastIndexOf s [p, q] n < 0"
  then have "0 \<le> lastIndexOf s [p, q] n" by simp
  from lastIndexOf_char0[OF this] assms show False
    by (metis nth_mem)
qed

lemma witness_sentence_break:
  "lastIndexOf ''aaaa. bbbbbbbbb'' ''. '' 7 = 4" "lastIndexOf ''aaaa. bbbbbbbbb'' ''. '' 14 = 4"
  unfolding lastIndexOf_def
  by (rule trans[OF lastIndexOf_down_eq[where i = 4]]; auto simp: match2_iff nth_Cons')+

lemma witness_thresholds:
  "\<not> above_threshold 4 0 7" "\<not> above_threshold 4 7 7"
  by (simp_all add: above_threshold_def round_double_def low_bits.simps double_0_7_def Let_def)

lemma witness_ends:
  "next_chunkEnd ''aaaa. bbbbbbbbb'' 7 0 = 7"
  "next_chunkEnd ''aaaa. bbbbbbbbb'' 7 7 = 14"
  "next_chunkEnd ''aaaa. bbbbbbbbb'' 7 14 = 21"
proof -
  have nl: "\<not> above_threshold (lastIndexOf ''aaaa. bbbbbbbbb'' ''\<newline>\<newline>'' n) cur 7" for n cur
    by (rule above_threshold_neg, rule lastIndexOf_absent) simp
  show "next_chunkEnd ''aaaa. bbbbbbbbb'' 7 0 = 7"
    "next_chunkEnd ''aaaa. bbbbbbbbb'' 7 7 = 14"
    "next_chunkEnd ''aaaa. bbbbbbbbb'' 7 14 = 21"
    by (simp_all add: next_chunkEnd_def nl witness_sentence_break witness_thresholds)
qed

lemma witness_run:
  "chunkContent ''aaaa. bbbbbbbbb'' 7 = Some [''aaaa. b'', ''bbbbbbb'', ''b'']"
proof -
  have "chunk_loop ''aaaa. bbbbbbbbb'' 7 0 [] = Some [''aaaa. b'', ''bbbbbbb'', ''b'']"
    apply (subst chunk_loop.simps, simp add: witness_ends substring_def)
    apply (subst chunk_loop.simps, simp add: witness_ends substring_def)
    apply (subst chunk_loop.simps, simp add: witness_ends substring_def)
    apply (subst chunk_loop.simps, simp add: witness_ends substring_def)
    done
  then show ?thesis by (simp add: chunkContent_def)
qed

text \<open>
  Claim C6. For every string (a JavaScript string has fewer than \<open>2^53\<close> code units)
  and every positive \<open>maxSize\<close>, \<open>chunkContent\<close> returns, and the concatenation of
  the chunks it returns is the string itself.
\<close>

theorem chunkContent_concat:
  assumes "0 < maxSize" and "length content < 2 ^ 53"
  shows "\<exists>chunks. chunkContent content maxSize = Some chunks \<and> concat chunks = content"
proof (cases "length content \<le> maxSize")
  case True
  then show ?thesis by (simp add: chunkContent_def)
next
  case False
  have "int (cur + 0) < x" if "cur < length content" "above_threshold x cur maxSize" for cur x
    using above_threshold_gt[of cur x maxSize] that assms(2) by simp
  from chunk_loop_spec[OF assms(1) this, where cur = 0 and acc = "[]"] False
  show ?thesis by (auto simp: chunkContent_def chunks_ok_def)
qed

theorem chunkContent_concat_witness:
  "(0::nat) < 7 \<and> length ''aaaa. bbbbbbbbb'' < 2 ^ 53 \<and>
   chunkContent ''aaaa. bbbbbbbbb'' 7 = Some [''aaaa. b'', ''bbbbbbb'', ''b''] \<and>
   (\<exists>chunks. chunkContent ''aaaa. bbbbbbbbb'' 7 = Some chunks \<and>
      concat chunks = ''aaaa. bbbbbbbbb'')"
proof -
  show ?thesis
    using chunkContent_concat[of 7 "''aaaa. bbbbbbbbb''"] witness_run by simp
qed











section \<open>Properties of the key-value store\<close>

lemma of_char_digit_char: "d < 10 \<Longrightarrow> of_char (digit_char d) = (48 + d :: nat)"
proof -
  assume "d < 10"
  then have "d = 0 \<or> d = 1 \<or> d = 2 \<or> d = 3 \<or> d = 4 \<or> d = 5 \<or> d = 6 \<or> d = 7 \<or> d = 8 \<or> d = 9"
    by arith
  then show ?thesis by (auto simp: digit_char_def)
qed

lemma show_nat_read: "foldl (\<lambda>a c. 10 * a + (of_char c - 48)) (0::nat) (show_nat n) = n"
proof (induction n rule: show_nat.induct)
  case (1 n)
  show ?case
  proof (cases "n < 10")
    case True
    then show ?thesis by (subst show_nat.simps) (simp add: of_char_digit_char)
  next
    case False
    have "n mod 10 < 10" by simp
    then have "of_char (digit_char (n mod 10)) = (48 + n mod 10 :: nat)"
      by (rule of_char_digit_char)
    then show ?thesis using False 1
      by (subst show_nat.simps) simp
  qed
qed

lemma show_nat_inj: "show_nat m = show_nat n \<Longrightarrow> m = n"
  by (metis show_nat_read)

lemma chunk_key_inj [simp]: "chunk_key p i = chunk_key p j \<longleftrightarrow> i = j"
  by (auto simp: chunk_key_def dest: show_nat_inj)

lemma chunk_key_neq_meta [simp]: "chunk_key p i \<noteq> meta_key p" "meta_key p \<noteq> chunk_key p i"
  by (simp_all add: chunk_key_def meta_key_def)

lemma single_key_neq [simp]:
  "single_key p \<noteq> chunk_key p i" "chunk_key p i \<noteq> single_key p"
  "single_key p \<noteq> meta_key p" "meta_key p \<noteq> single_key p"
  by (simp_all add: chunk_key_def meta_key_def single_key_def)

lemma map_of_deleteProperty: "map_of (deleteProperty s k) = (map_of s)(k := None)"
  by (simp add: deleteProperty_def delete_conv')

lemma deleteProperty_le: "map_of (deleteProperty s k) \<subseteq>\<^sub>m map_of s"
  by (simp add: map_of_deleteProperty map_le_def)

lemma fold_delete_le:
  "map_of (fold (\<lambda>i st. deleteProperty st (f i)) xs s) \<subseteq>\<^sub>m map_of s"
proof (induction xs arbitrary: s)
  case Nil
  then show ?case by simp
next
  case (Cons x xs)
  have "map_of (fold (\<lambda>i st. deleteProperty st (f i)) xs (deleteProperty s (f x)))
          \<subseteq>\<^sub>m map_of (deleteProperty s (f x))" by (rule Cons.IH)
  then show ?case using deleteProperty_le[of s "f x"] by (auto intro: map_le_trans)
qed

lemma deleteFromStorage_le: "map_of (deleteFromStorage e s path) \<subseteq>\<^sub>m map_of s"
proof -
  let ?s1 = "deleteProperty s (single_key path)"
  have s1: "map_of ?s1 \<subseteq>\<^sub>m map_of s" by (rule deleteProperty_le)
  have "map_of (deleteProperty
           (fold (\<lambda>i st. deleteProperty st (chunk_key path i)) [0..<n] ?s1) (meta_key path))
          \<subseteq>\<^sub>m map_of s" for n
    using deleteProperty_le fold_delete_le s1 by (blast intro: map_le_trans)
  then show ?thesis using s1
    by (auto simp: deleteFromStorage_def Let_def split: option.splits json.splits)
qed

lemma fold_deleteFromStorage_le:
  "map_of (fold (\<lambda>path st. deleteFromStorage e st path) ps s) \<subseteq>\<^sub>m map_of s"
proof (induction ps arbitrary: s)
  case Nil
  then show ?case by simp
next
  case (Cons p ps)
  have "map_of (fold (\<lambda>path st. deleteFromStorage e st path) ps (deleteFromStorage e s p))
          \<subseteq>\<^sub>m map_of (deleteFromStorage e s p)" by (rule Cons.IH)
  then show ?case using deleteFromStorage_le[of e s p] by (auto intro: map_le_trans)
qed

lemma autoCleanupIfNeeded_le: "map_of (autoCleanupIfNeeded e now s) \<subseteq>\<^sub>m map_of s"
  by (simp add: autoCleanupIfNeeded_def cleanupOldStorageEntries_def Let_def
        fold_deleteFromStorage_le)

lemma single_free_le:
  assumes "single_free s path" "map_of s' \<subseteq>\<^sub>m map_of s"
  shows "single_free s' path"
proof (cases "map_of s' (single_key path)")
  case None
  then show ?thesis by (simp add: single_free_def getProperty_def)
next
  case (Some a)
  then have "single_key path \<in> dom (map_of s')" by auto
  with assms(2) Some have "map_of s (single_key path) = Some a"
    by (metis map_le_def)
  with assms(1) Some show ?thesis by (simp add: single_free_def getProperty_def)
qed

lemma save_chunks_concat: "concat (save_chunks content i) = drop i content"
proof (induction content i rule: save_chunks.induct)
  case (1 content i)
  show ?case
  proof (cases "i < length content")
    case True
    have "drop (i + maxChunkSize STORAGE_CONFIG) content
            = drop (maxChunkSize STORAGE_CONFIG) (drop i content)"
      by (simp add: add.commute)
    then show ?thesis using True 1
      by (subst save_chunks.simps) (simp add: substring_take_drop del: drop_drop)
  next
    case False
    then show ?thesis by (subst save_chunks.simps) simp
  qed
qed

lemma save_chunks_nonempty: "c \<in> set (save_chunks content i) \<Longrightarrow> c \<noteq> []"
proof (induction content i rule: save_chunks.induct)
  case (1 content i)
  show ?case
  proof (cases "i < length content")
    case True
    then show ?thesis using 1
      by (subst (asm) (2) save_chunks.simps) (auto simp: STORAGE_CONFIG_def substring_take_drop)
  next
    case False
    then show ?thesis using 1 by (subst (asm) (2) save_chunks.simps) simp
  qed
qed

lemma save_chunks_length:
  "length (save_chunks content i) = (length content - i + 449999) div 450000"
proof (induction content i rule: save_chunks.induct)
  case (1 content i)
  show ?case
  proof (cases "i < length content")
    case True
    then have "length (save_chunks content i)
        = Suc ((length content - (i + 450000) + 449999) div 450000)"
      using 1 by (subst save_chunks.simps) (simp add: STORAGE_CONFIG_def)
    also have "\<dots> = (length content - i + 449999) div 450000"
      using True by (cases "i + 450000 \<le> length content") (simp_all add: div_eq_dividend_iff)
    finally show ?thesis .
  next
    case False
    then show ?thesis by (subst save_chunks.simps) simp
  qed
qed

lemma write_chunks_other:
  "write_chunks e s path cs i = (s', err) \<Longrightarrow> \<forall>j. k \<noteq> chunk_key path j \<Longrightarrow>
   map_of s' k = map_of s k"
proof (induction cs arbitrary: s i)
  case Nil
  then show ?case by simp
next
  case (Cons c cs)
  show ?case
  proof (cases "rejects e s (chunk_key path i) (Text c)")
    case (Some m)
    with Cons.prems show ?thesis by (simp add: setProperty_def)
  next
    case None
    with Cons.prems have "write_chunks e (AList.update (chunk_key path i) (Text c) s) path cs (Suc i)
        = (s', err)" by (simp add: setProperty_def)
    from Cons.IH[OF this Cons.prems(2)] Cons.prems(2) show ?thesis
      by (simp add: update_conv')
  qed
qed

lemma write_chunks_below:
  "write_chunks e s path cs i = (s', err) \<Longrightarrow> j < i \<Longrightarrow>
   map_of s' (chunk_key path j) = map_of s (chunk_key path j)"
proof (induction cs arbitrary: s i)
  case Nil
  then show ?case by simp
next
  case (Cons c cs)
  show ?case
  proof (cases "rejects e s (chunk_key path i) (Text c)")
    case (Some m)
    with Cons.prems show ?thesis by (simp add: setProperty_def)
  next
    case None
    with Cons.prems have "write_chunks e (AList.update (chunk_key path i) (Text c) s) path cs (Suc i)
        = (s', err)" by (simp add: setProperty_def)
    from Cons.IH[OF this, of ] Cons.prems(2) show ?thesis
      by (simp add: update_conv')
  qed
qed

lemma write_chunks_written:
  "write_chunks e s path cs i = (s', None) \<Longrightarrow> j < length cs \<Longrightarrow>
   map_of s' (chunk_key path (i + j)) = Some (Text (cs ! j))"
proof (induction cs arbitrary: s i j)
  case Nil
  then show ?case by simp
next
  case (Cons c cs)
  show ?case
  proof (cases "rejects e s (chunk_key path i) (Text c)")
    case (Some m)
    with Cons.prems show ?thesis by (simp add: setProperty_def)
  next
    case None
    with Cons.prems have w: "write_chunks e (AList.update (chunk_key path i) (Text c) s) path cs (Suc i)
        = (s', None)" by (simp add: setProperty_def)
    show ?thesis
    proof (cases j)
      case 0
      then show ?thesis using write_chunks_below[OF w, of i] by (simp add: update_conv')
    next
      case (Suc j')
      then show ?thesis using Cons.IH[OF w, of j'] Cons.prems(2) by simp
    qed
  qed
qed

lemma write_chunks_accepts:
  "\<forall>s k v. rejects e s k v = None \<Longrightarrow> snd (write_chunks e s path cs i) = None"
  by (induction cs arbitrary: s i) (simp_all add: setProperty_def)

lemma fold_append_concat:
  "fold (\<lambda>i acc. acc @ g i) xs a = a @ concat (map g xs)"
  by (induction xs arbitrary: a) simp_all

lemma read_chunks_concat:
  "read_chunks e s path n =
     concat (map (\<lambda>i. case getProperty s (chunk_key path i) of
                          None \<Rightarrow> [] | Some v \<Rightarrow> text_of e v) [0..<n])"
proof -
  have "(\<lambda>i reconstructedContent.
             case getProperty s (chunk_key path i) of
               None \<Rightarrow> reconstructedContent
             | Some chunk \<Rightarrow>
                 if truthy chunk then reconstructedContent @ text_of e chunk
                 else reconstructedContent)
      = (\<lambda>i acc. acc @ (case getProperty s (chunk_key path i) of
                          None \<Rightarrow> [] | Some v \<Rightarrow> text_of e v))"
    by (auto simp: fun_eq_iff truthy_def text_of_def split: option.splits)
  then show ?thesis
    unfolding read_chunks_def by (simp add: fold_append_concat)
qed

lemma read_chunks_written:
  assumes "\<forall>j < length cs. getProperty s (chunk_key path j) = Some (Text (cs ! j))"
  shows "read_chunks e s path (length cs) = concat cs"
proof -
  have "map (\<lambda>i. case getProperty s (chunk_key path i) of
                          None \<Rightarrow> [] | Some v \<Rightarrow> text_of e v) [0..<length cs] = cs"
    using assms by (intro nth_equalityI) (simp_all add: text_of_def)
  then show ?thesis by (simp add: read_chunks_concat)
qed

lemma save_single:
  assumes "saveToStorage e now s path (DString p) md = (s', r)" "success r"
    "length p \<le> 450000"
  shows "map_of s' (single_key path) =
           Some (Json (JObject (Some p)
             (Some (md\<lparr>timestamp := Some now, size_m := Some (length p),
                         chunked := Some False\<rparr>)) None None))"
  using assms
  by (auto simp: saveToStorage_def STORAGE_CONFIG_def Let_def setProperty_def success_def
        update_conv' split: option.splits)

lemma save_chunked:
  assumes "saveToStorage e now s path (DString p) md = (s', r)" "success r"
    "450000 < length p"
  shows "map_of s' (meta_key path) =
           Some (Json (JObject None
             (Some (md\<lparr>timestamp := Some now, size_m := Some (length p),
                         chunked := Some True,
                         chunkCount := Some (length (save_chunks p 0))\<rparr>)) None None))"
    and "\<forall>j < length (save_chunks p 0).
           map_of s' (chunk_key path j) = Some (Text (save_chunks p 0 ! j))"
    and "map_of s' (single_key path) = map_of (autoCleanupIfNeeded e now s) (single_key path)"
proof -
  let ?s0 = "autoCleanupIfNeeded e now s"
  let ?cs = "save_chunks p 0"
  obtain s1 err where w: "write_chunks e ?s0 path ?cs 0 = (s1, err)" by fastforce
  from assms w have err: "err = None"
    by (auto simp: saveToStorage_def STORAGE_CONFIG_def Let_def success_def
          split: option.splits prod.splits)
  let ?v = "Json (JObject None
             (Some (md\<lparr>timestamp := Some now, size_m := Some (length p),
                         chunked := Some True,
                         chunkCount := Some (length ?cs)\<rparr>)) None None)"
  from assms w err have s': "s' = AList.update (meta_key path) ?v s1"
    by (auto simp: saveToStorage_def STORAGE_CONFIG_def Let_def success_def setProperty_def
          split: option.splits prod.splits)
  show "map_of s' (meta_key path) = Some ?v"
    by (simp add: s' update_conv')
  show "\<forall>j < length ?cs. map_of s' (chunk_key path j) = Some (Text (?cs ! j))"
    using write_chunks_written[OF w[unfolded err], of _ ] by (simp add: s' update_conv')
  show "map_of s' (single_key path) = map_of ?s0 (single_key path)"
    using write_chunks_other[OF w, of "single_key path"] by (simp add: s' update_conv')
qed

lemma load_single:
  assumes "map_of s (single_key path) = Some (Json (JObject c md t r))"
  shows "loadFromStorage e s path =
           Some \<lparr>lr_content = c,
                 lr_metadata = (case md of None \<Rightarrow> no_metadata | Some m \<Rightarrow> m)\<rparr>"
  using assms by (simp add: loadFromStorage_def getProperty_def truthy_def JSON_parse_def)

lemma load_chunked:
  assumes "single_free s path"
    and "getProperty s (meta_key path) = Some (Json (JObject c (Some md) t r))"
  shows "loadFromStorage e s path =
           Some \<lparr>lr_content = Some (read_chunks e s path (chunk_count_of md)),
                 lr_metadata = md\<rparr>"
  using assms
  by (auto simp: loadFromStorage_def single_free_def truthy_def JSON_parse_def
        split: option.splits)

lemma storage_roundtrip:
  assumes save: "saveToStorage e now s path (DString p) md = (s', r)" and ok: "success r"
    and pre: "length p \<le> 450000 \<or> single_free s path"
  shows "map_option lr_content (loadFromStorage e s' path) = Some (Some p)"
proof (cases "length p \<le> 450000")
  case True
  from save_single[OF save ok True] show ?thesis by (simp add: load_single)
next
  case False
  then have big: "450000 < length p" by simp
  with pre have "single_free s path" by simp
  then have "single_free (autoCleanupIfNeeded e now s) path"
    using autoCleanupIfNeeded_le by (rule single_free_le)
  then have free: "single_free s' path"
    using save_chunked(3)[OF save ok big] by (simp add: single_free_def getProperty_def)
  note m = save_chunked(1)[OF save ok big]
  have "read_chunks e s' path (length (save_chunks p 0)) = concat (save_chunks p 0)"
    using save_chunked(2)[OF save ok big] by (intro read_chunks_written) (simp add: getProperty_def)
  then have "read_chunks e s' path (length (save_chunks p 0)) = p"
    by (simp add: save_chunks_concat)
  then show ?thesis
    using load_chunked[OF free, of _ _ _ _ e] m
    by (simp add: getProperty_def chunk_count_of_def)
qed

lemma env0_accepts: "rejects env0 s k v = None"
  by (simp add: env0_def)

lemma setProperty_accepting:
  "rejects e s k v = None \<Longrightarrow> setProperty e s k v = (AList.update k v s, None)"
  by (simp add: setProperty_def)

lemma write_chunks_accepting:
  assumes "\<forall>s k v. rejects e s k v = None"
  shows "\<exists>s1. write_chunks e s path cs i = (s1, None)"
  using write_chunks_accepts[OF assms, of s path cs i]
  by (cases "write_chunks e s path cs i") simp

lemma saveToStorage_accepting:
  assumes acc: "\<forall>s k v. rejects e s k v = None"
  shows "success (snd (saveToStorage e now s path data md))"
proof -
  let ?content = "case data of DString t \<Rightarrow> t | DValue j \<Rightarrow> json_text e j"
  let ?s0 = "if autoCleanup STORAGE_CONFIG then autoCleanupIfNeeded e now s else s"
  obtain s1 where w: "write_chunks e ?s0 path (save_chunks ?content 0) 0 = (s1, None)"
    using write_chunks_accepting[OF acc] by blast
  show ?thesis
    using acc w by (simp add: saveToStorage_def Let_def setProperty_def success_def)
qed




lemma autoCleanupIfNeeded_small:
  "length (filter is_storage_entry_key (map fst s)) \<le> maxEntries STORAGE_CONFIG \<Longrightarrow>
   autoCleanupIfNeeded e now s = s"
  by (simp add: autoCleanupIfNeeded_def Let_def)

lemma write_chunks_dom:
  "write_chunks e s path cs i = (s', err) \<Longrightarrow> dom (map_of s) \<subseteq> dom (map_of s')"
proof (induction cs arbitrary: s i)
  case Nil
  then show ?case by simp
next
  case (Cons c cs)
  show ?case
  proof (cases "rejects e s (chunk_key path i) (Text c)")
    case (Some m)
    with Cons.prems show ?thesis by (simp add: setProperty_def)
  next
    case None
    let ?s1 = "AList.update (chunk_key path i) (Text c) s"
    from None Cons.prems have "write_chunks e ?s1 path cs (Suc i) = (s', err)"
      by (simp add: setProperty_def)
    then have "dom (map_of ?s1) \<subseteq> dom (map_of s')" by (rule Cons.IH)
    moreover have "dom (map_of s) \<subseteq> dom (map_of ?s1)" by (auto simp: update_conv')
    ultimately show ?thesis by (rule order_trans[rotated])
  qed
qed

lemma setProperty_dom:
  "setProperty e s k v = (s', err) \<Longrightarrow> dom (map_of s) \<subseteq> dom (map_of s')"
  by (auto simp: setProperty_def update_conv' split: option.splits)

lemma saveToStorage_keeps_keys:
  assumes "saveToStorage e now s path data md = (s', r)"
    and "length (filter is_storage_entry_key (map fst s)) \<le> maxEntries STORAGE_CONFIG"
  shows "dom (map_of s) \<subseteq> dom (map_of s')"
proof -
  let ?content = "case data of DString t \<Rightarrow> t | DValue j \<Rightarrow> json_text e j"
  have s0: "(if autoCleanup STORAGE_CONFIG then autoCleanupIfNeeded e now s else s) = s"
    using assms(2) by (simp add: autoCleanupIfNeeded_small)
  show ?thesis
  proof (cases "length ?content \<le> maxChunkSize STORAGE_CONFIG")
    case True
    obtain s1 err where sp: "setProperty e s (single_key path)
                (Json (JObject (Some ?content)
                   (Some (md\<lparr>timestamp := Some now, size_m := Some (length ?content),
                               chunked := Some False\<rparr>)) None None)) = (s1, err)"
      by fastforce
    then have "s' = s1" using assms(1) True
      by (simp add: saveToStorage_def Let_def s0 split: option.splits)
    then show ?thesis using setProperty_dom[OF sp] by simp
  next
    case False
    obtain s1 err where w: "write_chunks e s path (save_chunks ?content 0) 0 = (s1, err)"
      by fastforce
    note d1 = write_chunks_dom[OF w]
    show ?thesis
    proof (cases err)
      case (Some m)
      then have "s' = s1" using assms(1) False w
        by (simp add: saveToStorage_def Let_def s0)
      then show ?thesis using d1 by simp
    next
      case None
      obtain s2 err2 where sp: "setProperty e s1 (meta_key path)
                     (Json (JObject None
                        (Some (md\<lparr>timestamp := Some now, size_m := Some (length ?content),
                                    chunked := Some True,
                                    chunkCount := Some (length (save_chunks ?content 0))\<rparr>))
                        None None)) = (s2, err2)"
        by fastforce
      then have "s' = s2" using assms(1) False w None
        by (simp add: saveToStorage_def Let_def s0 split: option.splits)
      then show ?thesis using d1 setProperty_dom[OF sp] by auto
    qed
  qed
qed

lemma saveToStorage_chunked_result:
  assumes "saveToStorage e now s path (DString p) md = (s', r)" "success r"
    "450000 < length p"
  shows "r = SaveOk path (length p) True (Some ((length p + 449999) div 450000))"
proof -
  obtain s1 err where w: "write_chunks e (autoCleanupIfNeeded e now s) path (save_chunks p 0) 0
      = (s1, err)" by fastforce
  show ?thesis using assms w
    by (auto simp: saveToStorage_def STORAGE_CONFIG_def Let_def success_def save_chunks_length
          split: option.splits prod.splits)
qed

lemma storage_scenarioE:
  assumes "length p = 600000"
    and "saveToStorage e now [] path (DString p) md = (s', r)" "success r"
  shows "r = SaveOk path 600000 True (Some 2) \<and>
         map_option lr_content (loadFromStorage e s' path) = Some (Some p)"
proof -
  have "single_free [] path" by (simp add: single_free_def getProperty_def)
  then have "map_option lr_content (loadFromStorage e s' path) = Some (Some p)"
    using storage_roundtrip[OF assms(2,3)] by simp
  moreover have "r = SaveOk path 600000 True (Some 2)"
    using saveToStorage_chunked_result[OF assms(2,3)] assms(1) by simp
  ultimately show ?thesis by simp
qed

lemma show_nat_digits:
  "show_nat 0 = ''0''" "show_nat (Suc 0) = ''1''" "show_nat 1 = ''1''" "show_nat 2 = ''2''"
  by (simp_all add: show_nat.simps digit_char_def)

lemma upt_small: "[0..<2] = [0, 1]" "[0..<3] = [0, 1, 2]"
  by (simp_all add: upt_rec)

lemma save_chunks_450001:
  "save_chunks (replicate 450001 (CHR ''a'')) 0 = [replicate 450000 (CHR ''a''), ''a'']"
  apply (subst save_chunks.simps, simp add: STORAGE_CONFIG_def substring_take_drop)
  apply (subst save_chunks.simps, simp add: STORAGE_CONFIG_def substring_take_drop)
  apply (subst save_chunks.simps, simp add: STORAGE_CONFIG_def substring_take_drop)
  done

lemma save_old:
  "saveToStorage env0 1 [] ''k'' (DString ''old'') no_metadata =
     ([(''STORAGE_k'', Json (JObject (Some ''old'')
          (Some (no_metadata\<lparr>timestamp := Some 1, size_m := Some 3, chunked := Some False\<rparr>))
          None None))],
      SaveOk ''k'' 3 False None)"
  by (simp add: saveToStorage_def STORAGE_CONFIG_def autoCleanupIfNeeded_def Let_def
        setProperty_def env0_def single_key_def)

text \<open>
  Claim C3 at a failing input. The path \<open>k\<close> first receives the short payload
  \<open>old\<close>, then a payload of 450,001 characters. Both writes report success, and the read
  that follows returns \<open>old\<close>: the chunked write leaves the single-slot property in
  place, and \<open>loadFromStorage\<close> probes that property first. (On a store with no
  single-slot entry under the path the round trip holds: \<open>storage_roundtrip\<close>,
  \<open>storage_scenarioE\<close>.)
\<close>

theorem saveToStorage_stale_single_entry:
  "(case saveToStorage env0 1 [] ''k'' (DString ''old'') no_metadata of (s1, r1) \<Rightarrow>
      (case saveToStorage env0 2 s1 ''k'' (DString (replicate 450001 (CHR ''a''))) no_metadata of
         (s2, r2) \<Rightarrow>
           success r1 \<and> success r2 \<and>
           map_option lr_content (loadFromStorage env0 s2 ''k'') = Some (Some ''old'')))"
proof -
  let ?s1 = "[(''STORAGE_k'', Json (JObject (Some ''old'')
          (Some (no_metadata\<lparr>timestamp := Some 1, size_m := Some 3, chunked := Some False\<rparr>))
          None None))]"
  let ?p = "replicate 450001 (CHR ''a'')"
  obtain s2 r2 where save2: "saveToStorage env0 2 ?s1 ''k'' (DString ?p) no_metadata = (s2, r2)"
    by fastforce
  have ok2: "success r2"
    using saveToStorage_accepting[of env0 2 ?s1 "''k''" "DString ?p" no_metadata] save2
    by (simp add: env0_accepts)
  have keep: "autoCleanupIfNeeded env0 2 ?s1 = ?s1"
    by (rule autoCleanupIfNeeded_small) (simp add: STORAGE_CONFIG_def)
  have "map_of s2 (single_key ''k'') = map_of ?s1 (single_key ''k'')"
    using save_chunked(3)[OF save2 ok2] keep by simp
  then have "map_option lr_content (loadFromStorage env0 s2 ''k'') = Some (Some ''old'')"
    by (simp add: single_key_def load_single)
  then show ?thesis using ok2 by (simp add: save_old save2 success_def)
qed

text \<open>
  Claim C4, as the code has it. When the single-slot probe misses and the metadata
  property records \<open>chunkCount\<close> slots, \<open>loadFromStorage\<close> returns the concatenation,
  in index order, of the chunk slots that are there; a missing slot contributes nothing and
  is not an error.
\<close>

theorem loadFromStorage_missing_chunk_skipped:
  assumes "single_free s path"
    and "getProperty s (meta_key path) = Some (Json (JObject c (Some md) t r))"
  shows "loadFromStorage e s path =
           Some \<lparr>lr_content =
                   Some (concat (map (\<lambda>i. case getProperty s (chunk_key path i) of
                                             None \<Rightarrow> [] | Some chunk \<Rightarrow> text_of e chunk)
                                  [0..<chunk_count_of md])),
                 lr_metadata = md\<rparr>"
  using load_chunked[OF assms] by (simp add: read_chunks_concat)

theorem loadFromStorage_missing_chunk_skipped_witness:
  "single_free [(''STORAGE_k_META'', Json (JObject None (Some (no_metadata\<lparr>chunkCount := Some 2\<rparr>)) None None)),
                (''STORAGE_k_CHUNK_1'', Text ''cd'')] ''k'' \<and>
   getProperty [(''STORAGE_k_META'', Json (JObject None (Some (no_metadata\<lparr>chunkCount := Some 2\<rparr>)) None None)),
                (''STORAGE_k_CHUNK_1'', Text ''cd'')] (chunk_key ''k'' 0) = None \<and>
   loadFromStorage env0
     [(''STORAGE_k_META'', Json (JObject None (Some (no_metadata\<lparr>chunkCount := Some 2\<rparr>)) None None)),
      (''STORAGE_k_CHUNK_1'', Text ''cd'')] ''k''
   = Some \<lparr>lr_content = Some ''cd'', lr_metadata = no_metadata\<lparr>chunkCount := Some 2\<rparr>\<rparr>"
proof -
  let ?s = "[(''STORAGE_k_META'', Json (JObject None (Some (no_metadata\<lparr>chunkCount := Some 2\<rparr>)) None None)),
      (''STORAGE_k_CHUNK_1'', Text ''cd'')]"
  have f: "single_free ?s ''k''"
    by (simp add: single_free_def getProperty_def single_key_def)
  have m: "getProperty ?s (meta_key ''k'')
      = Some (Json (JObject None (Some (no_metadata\<lparr>chunkCount := Some 2\<rparr>)) None None))"
    by (simp add: getProperty_def meta_key_def)
  have absent: "getProperty ?s (chunk_key ''k'' 0) = None"
    by (simp add: getProperty_def chunk_key_def show_nat_digits)
  show ?thesis
    using f absent loadFromStorage_missing_chunk_skipped[OF f m, of env0]
    by (simp add: chunk_count_of_def no_metadata_def getProperty_def chunk_key_def
          show_nat_digits text_of_def upt_small)
qed

text \<open>
  Claim C4 as stated fails: with three slots recorded and slot 1 absent, the read returns
  the truncated payload \<open>abef\<close>, not an error.
\<close>

theorem loadFromStorage_missing_chunk_counterexample:
  "loadFromStorage env0
     [(''STORAGE_k_META'', Json (JObject None (Some (no_metadata\<lparr>chunkCount := Some 3\<rparr>)) None None)),
      (''STORAGE_k_CHUNK_0'', Text ''ab''), (''STORAGE_k_CHUNK_2'', Text ''ef'')] ''k''
   = Some \<lparr>lr_content = Some ''abef'', lr_metadata = no_metadata\<lparr>chunkCount := Some 3\<rparr>\<rparr>"
  by (simp add: loadFromStorage_def getProperty_def single_key_def meta_key_def truthy_def
        JSON_parse_def read_chunks_def chunk_count_of_def no_metadata_def chunk_key_def
        show_nat_digits text_of_def upt_small)

text \<open>
  Two successful writes under one path. The second payload is the one read back whenever
  it fits in one slot, or the first payload was chunked and the path had no single-slot
  entry before. When the second write triggers no eviction pass, every key of the store
  after the first write is still a key afterwards.
\<close>

lemma saveToStorage_twice:
  assumes "saveToStorage e now1 s path (DString p1) md1 = (s1, r1)" "success r1"
    and "saveToStorage e now2 s1 path (DString p2) md2 = (s2, r2)" "success r2"
  shows "((length p2 \<le> maxChunkSize STORAGE_CONFIG \<or>
           (maxChunkSize STORAGE_CONFIG < length p1 \<and> single_free s path)) \<longrightarrow>
          map_option lr_content (loadFromStorage e s2 path) = Some (Some p2)) \<and>
         (length (filter is_storage_entry_key (map fst s1)) \<le> maxEntries STORAGE_CONFIG \<longrightarrow>
          dom (map_of s1) \<subseteq> dom (map_of s2))"
proof (intro conjI impI)
  assume c: "length p2 \<le> maxChunkSize STORAGE_CONFIG \<or>
           (maxChunkSize STORAGE_CONFIG < length p1 \<and> single_free s path)"
  have "length p2 \<le> 450000 \<or> single_free s1 path"
  proof (cases "length p2 \<le> 450000")
    case True
    then show ?thesis by simp
  next
    case False
    with c have big: "450000 < length p1" and free: "single_free s path"
      by (simp_all add: STORAGE_CONFIG_def)
    have "single_free (autoCleanupIfNeeded e now1 s) path"
      using free autoCleanupIfNeeded_le by (rule single_free_le)
    then have "single_free s1 path"
      using save_chunked(3)[OF assms(1,2) big] by (simp add: single_free_def getProperty_def)
    then show ?thesis by simp
  qed
  with assms(3,4) show "map_option lr_content (loadFromStorage e s2 path) = Some (Some p2)"
    by (rule storage_roundtrip)
next
  assume "length (filter is_storage_entry_key (map fst s1)) \<le> maxEntries STORAGE_CONFIG"
  with assms(3) show "dom (map_of s1) \<subseteq> dom (map_of s2)"
    by (rule saveToStorage_keeps_keys)
qed

lemma save_single_k:
  "length p \<le> 450000 \<Longrightarrow> length s \<le> 50 \<Longrightarrow>
   saveToStorage env0 now s ''k'' (DString p) no_metadata =
     (AList.update ''STORAGE_k'' (Json (JObject (Some p)
          (Some (no_metadata\<lparr>timestamp := Some now, size_m := Some (length p),
                              chunked := Some False\<rparr>)) None None)) s,
      SaveOk ''k'' (length p) False None)"
proof -
  assume a: "length p \<le> 450000" "length s \<le> 50"
  have me: "maxEntries STORAGE_CONFIG = 50" by (simp add: STORAGE_CONFIG_def)
  have "length (filter is_storage_entry_key (map fst s)) \<le> length (map fst s)"
    by (rule length_filter_le)
  also have "\<dots> \<le> 50" using a(2) by simp
  finally have "length (filter is_storage_entry_key (map fst s)) \<le> maxEntries STORAGE_CONFIG"
    unfolding me .
  then have "autoCleanupIfNeeded env0 now s = s"
    by (rule autoCleanupIfNeeded_small)
  then show ?thesis using a(1)
    by (simp add: saveToStorage_def STORAGE_CONFIG_def Let_def setProperty_def env0_def
          single_key_def)
qed

lemma save_450001:
  "saveToStorage env0 1 [] ''k'' (DString (replicate 450001 (CHR ''a''))) no_metadata
     = (chunked_store_k, SaveOk ''k'' 450001 True (Some 2))"
  by (simp add: saveToStorage_def STORAGE_CONFIG_def autoCleanupIfNeeded_def Let_def
        save_chunks_450001 setProperty_def env0_def chunk_key_def meta_key_def
        show_nat_digits chunked_store_k_def)

lemma save_chunks_450001_b:
  "save_chunks (replicate 450001 (CHR ''b'')) 0 = [replicate 450000 (CHR ''b''), ''b'']"
  apply (subst save_chunks.simps, simp add: STORAGE_CONFIG_def substring_take_drop)
  apply (subst save_chunks.simps, simp add: STORAGE_CONFIG_def substring_take_drop)
  apply (subst save_chunks.simps, simp add: STORAGE_CONFIG_def substring_take_drop)
  done

lemma few_entries_first: "autoCleanupIfNeeded env0 2 (single_store_k 1 ''first'')
    = single_store_k 1 ''first''"
  by (rule autoCleanupIfNeeded_small) (simp add: STORAGE_CONFIG_def single_store_k_def)

lemma save_first_then_large:
  "saveToStorage env0 2 (single_store_k 1 ''first'') ''k''
     (DString (replicate 450001 (CHR ''b''))) no_metadata
   = (single_store_k 1 ''first'' @
        [(''STORAGE_k_CHUNK_0'', Text (replicate 450000 (CHR ''b''))),
         (''STORAGE_k_CHUNK_1'', Text ''b''),
         (''STORAGE_k_META'', Json (JObject None
            (Some (no_metadata\<lparr>timestamp := Some 2, size_m := Some 450001,
                                chunked := Some True, chunkCount := Some 2\<rparr>)) None None))],
      SaveOk ''k'' 450001 True (Some 2))"
  by (simp add: saveToStorage_def few_entries_first Let_def save_chunks_450001_b)
     (simp add: STORAGE_CONFIG_def setProperty_def env0_def chunk_key_def meta_key_def
        show_nat_digits single_store_k_def)

text \<open>
  Claim C5 at two failing inputs, each on an empty store. In the first, the path \<open>k\<close>
  receives the payload \<open>first\<close> and then a payload of 450,001 characters: both writes
  report success, and the read returns \<open>first\<close>, not the second payload, because the
  chunked write leaves the single-slot property of the first write in place. In the
  second, the path receives a payload of 450,001 characters and then the payload
  \<open>new\<close>: the read returns \<open>new\<close>, and the two chunk slots and the metadata slot of
  the first write are still in the store.
\<close>

theorem saveToStorage_overwrite_stale:
  "saveToStorage env0 1 [] ''k'' (DString ''first'') no_metadata
     = (single_store_k 1 ''first'', SaveOk ''k'' 5 False None) \<and>
   (case saveToStorage env0 2 (single_store_k 1 ''first'') ''k''
           (DString (replicate 450001 (CHR ''b''))) no_metadata of
      (s2, r2) \<Rightarrow>
        r2 = SaveOk ''k'' 450001 True (Some 2) \<and>
        map_option lr_content (loadFromStorage env0 s2 ''k'') = Some (Some ''first'')) \<and>
   saveToStorage env0 1 [] ''k'' (DString (replicate 450001 (CHR ''a''))) no_metadata
     = (chunked_store_k, SaveOk ''k'' 450001 True (Some 2)) \<and>
   (case saveToStorage env0 2 chunked_store_k ''k'' (DString ''new'') no_metadata of
      (s2, r2) \<Rightarrow>
        r2 = SaveOk ''k'' 3 False None \<and>
        map_option lr_content (loadFromStorage env0 s2 ''k'') = Some (Some ''new'') \<and>
        getProperty s2 ''STORAGE_k_CHUNK_0'' = Some (Text (replicate 450000 (CHR ''a''))) \<and>
        getProperty s2 ''STORAGE_k_CHUNK_1'' = Some (Text ''a'') \<and>
        getProperty s2 ''STORAGE_k_META'' \<noteq> None)"
proof -
  have a1: "saveToStorage env0 1 [] ''k'' (DString ''first'') no_metadata
     = (single_store_k 1 ''first'', SaveOk ''k'' 5 False None)"
    by (simp add: save_single_k single_store_k_def)
  have a2: "map_option lr_content (loadFromStorage env0
      (single_store_k 1 ''first'' @
        [(''STORAGE_k_CHUNK_0'', Text (replicate 450000 (CHR ''b''))),
         (''STORAGE_k_CHUNK_1'', Text ''b''),
         (''STORAGE_k_META'', Json (JObject None
            (Some (no_metadata\<lparr>timestamp := Some 2, size_m := Some 450001,
                                chunked := Some True, chunkCount := Some 2\<rparr>)) None None))])
      ''k'') = Some (Some ''first'')"
    by (simp add: loadFromStorage_def getProperty_def single_key_def single_store_k_def
          truthy_def JSON_parse_def)
  have b2: "saveToStorage env0 2 chunked_store_k ''k'' (DString ''new'') no_metadata
     = (chunked_store_k @ single_store_k 2 ''new'', SaveOk ''k'' 3 False None)"
    by (simp add: save_single_k chunked_store_k_def single_store_k_def)
  have b3: "map_option lr_content (loadFromStorage env0
      (chunked_store_k @ single_store_k 2 ''new'') ''k'') = Some (Some ''new'')"
    by (simp add: loadFromStorage_def getProperty_def single_key_def single_store_k_def
          chunked_store_k_def truthy_def JSON_parse_def)
  have b4: "getProperty (chunked_store_k @ single_store_k 2 ''new'') ''STORAGE_k_CHUNK_0''
        = Some (Text (replicate 450000 (CHR ''a'')))"
    "getProperty (chunked_store_k @ single_store_k 2 ''new'') ''STORAGE_k_CHUNK_1''
        = Some (Text ''a'')"
    "getProperty (chunked_store_k @ single_store_k 2 ''new'') ''STORAGE_k_META'' \<noteq> None"
    by (simp_all add: getProperty_def chunked_store_k_def)
  show ?thesis
    unfolding save_first_then_large b2
    using a1 a2 b3 b4 save_450001 by simp
qed








section \<open>Properties of the completion tracker\<close>

lemma previous_status_tracked:
  "item_status sc contentType iid = Some st \<Longrightarrow> previous_status rl sc contentType iid = Some st"
  by (auto simp: item_status_def previous_status_def subBlock_slot_def slot_status_def
        split: if_splits)

lemma update_counts:
  assumes "d pid = Some sc"
    and "updateItemStatusInControl f now rl d pid iid contentType tid newStatus file
           = (rl', d', Some r)"
  shows "allCompleted r \<longleftrightarrow>
           completedItems (tracking sc) +
             (if newStatus = ''completed'' \<and>
                 previous_status rl sc contentType iid \<noteq> Some ''completed''
              then 1 else 0)
           = totalItems (tracking sc)"
  using assms
  by (auto simp: updateItemStatusInControl_def loadPageStatusControl_def previous_status_def
        Let_def count_item_def savePageStatusControl_def slot_status_def
        split: if_splits option.splits slot.splits)

lemma update_saved:
  assumes "d pid = Some sc"
    and "updateItemStatusInControl f now rl d pid iid contentType tid newStatus file
           = (rl', d', Some r)"
    and "saved_statusControl r = Some c"
  shows "d' pid = Some c \<and>
         (allCompleted r \<longleftrightarrow> completedItems (tracking c) = totalItems (tracking c))"
  using assms
  by (auto simp: updateItemStatusInControl_def loadPageStatusControl_def
        Let_def savePageStatusControl_def
        split: if_splits option.splits slot.splits)

lemma first_call_records:
  assumes "d pid = Some sc"
    and "item_status sc contentType iid = Some st"
    and "updateItemStatusInControl f now rl d pid iid contentType tid ''completed'' file
           = (rl', d', Some r)"
    and "saved_statusControl r = Some sc1"
  shows "d' pid = Some sc1 \<and>
         item_status sc1 contentType iid = Some ''completed'' \<and>
         completedItems (tracking sc1)
           = completedItems (tracking sc) + (if st = ''completed'' then 0 else 1) \<and>
         pendingItems (tracking sc1)
           = pendingItems (tracking sc) - (if st = ''completed'' then 0 else 1)"
  using assms
  by (auto simp: updateItemStatusInControl_def loadPageStatusControl_def item_status_def
        Let_def count_item_def mark_item_def savePageStatusControl_def subBlock_slot_def
        split: if_splits option.splits slot.splits)

lemma completed_item_unchanged:
  assumes "d pid = Some sc"
    and "item_status sc contentType iid = Some ''completed''"
    and "updateItemStatusInControl f now rl d pid iid contentType tid ''completed'' file
           = (rl', d', res)"
  shows "(\<exists>sc'. d' pid = Some sc' \<and>
            completedItems (tracking sc') = completedItems (tracking sc) \<and>
            pendingItems (tracking sc') = pendingItems (tracking sc) \<and>
            item_status sc' contentType iid = Some ''completed'') \<and>
         (\<forall>r c. res = Some r \<and> saved_statusControl r = Some c \<longrightarrow>
            completedItems (tracking c) = completedItems (tracking sc) \<and>
            pendingItems (tracking c) = pendingItems (tracking sc))"
  using assms
  by (auto simp: updateItemStatusInControl_def loadPageStatusControl_def item_status_def
        Let_def count_item_def mark_item_def savePageStatusControl_def subBlock_slot_def
        split: if_splits option.splits slot.splits)

text \<open>
  Claim C1, as the code has it. On a call with status \<open>completed\<close> that returns a
  result, \<open>allCompleted\<close> is true exactly when \<open>completedItems\<close> equals
  \<open>totalItems\<close> after the call's update (on the saved control, when the save
  succeeded): on the call that makes them equal, and again on a later call for an item
  that is already completed. The counter moves whenever the value read as
  \<open>previousStatus\<close> is not \<open>completed\<close>, also when the lookup found a built-in
  object and no item.
\<close>

theorem updateItemStatusInControl_allCompleted:
  assumes "d pid = Some sc"
    and "updateItemStatusInControl f now rl d pid iid contentType tid ''completed'' file
           = (rl', d', Some r)"
  shows "(allCompleted r \<longleftrightarrow>
            completedItems (tracking sc) +
              (if previous_status rl sc contentType iid = Some ''completed'' then 0 else 1)
            = totalItems (tracking sc)) \<and>
         (\<forall>c. saved_statusControl r = Some c \<longrightarrow>
            d' pid = Some c \<and>
            (allCompleted r \<longleftrightarrow> completedItems (tracking c) = totalItems (tracking c))) \<and>
         (previous_status rl sc contentType iid = Some ''completed'' \<and>
          completedItems (tracking sc) = totalItems (tracking sc) \<longrightarrow> allCompleted r)"
  using update_counts[OF assms] update_saved[OF assms] by auto

text \<open>
  Claim C2. When a call with status \<open>completed\<close> for an item of the control has been
  saved, the item is recorded as \<open>completed\<close>, and a further call with status
  \<open>completed\<close> for the same item leaves \<open>completedItems\<close> and \<open>pendingItems\<close>
  of the stored control (and of the control it returns) as they were after the first call.
\<close>

theorem updateItemStatusInControl_idempotent:
  assumes "d pid = Some sc"
    and "item_status sc contentType iid = Some st"
    and "updateItemStatusInControl f1 now1 rl1 d pid iid contentType tid1 ''completed'' file1
           = (rl1', d1, Some r1)"
    and "saved_statusControl r1 = Some sc1"
    and "updateItemStatusInControl f2 now2 rl2 d1 pid iid contentType tid2 ''completed'' file2
           = (rl2', d2, res2)"
  shows "d1 pid = Some sc1 \<and>
         item_status sc1 contentType iid = Some ''completed'' \<and>
         completedItems (tracking sc1)
           = completedItems (tracking sc) + (if st = ''completed'' then 0 else 1) \<and>
         (\<exists>sc2. d2 pid = Some sc2 \<and>
            completedItems (tracking sc2) = completedItems (tracking sc1) \<and>
            pendingItems (tracking sc2) = pendingItems (tracking sc1) \<and>
            item_status sc2 contentType iid = Some ''completed'') \<and>
         (\<forall>r c. res2 = Some r \<and> saved_statusControl r = Some c \<longrightarrow>
            completedItems (tracking c) = completedItems (tracking sc1) \<and>
            pendingItems (tracking c) = pendingItems (tracking sc1))"
proof -
  note first = first_call_records[OF assms(1-4)]
  then have d1: "d1 pid = Some sc1"
    and st1: "item_status sc1 contentType iid = Some ''completed''"
    and cnt: "completedItems (tracking sc1)
           = completedItems (tracking sc) + (if st = ''completed'' then 0 else 1)"
    by simp_all
  note second = completed_item_unchanged[OF d1 st1 assms(5)]
  show ?thesis using d1 st1 cnt second by blast
qed

lemma initialize_page2:
  "initializePageStatusControl no_faults 0 Map.empty ''p1'' page2_index
     = ([''p1'' \<mapsto> page2_control None None 0 0], Some (page2_control None None 0 0))"
  by (simp add: initializePageStatusControl_def savePageStatusControl_def no_faults_def
        page2_index_def page2_control_def pending_item_def item_at_def)

lemma mark_main:
  "mark_completed 1 fresh_realm (page2_control None None 0 0) ''main_page'' ''main'' =
     (fresh_realm, [''p1'' \<mapsto> page2_control (Some 1) None 1 1],
      Some \<lparr>saved_statusControl = Some (page2_control (Some 1) None 1 1),
            allCompleted = False, readyForFinalProcessing = False\<rparr>)"
  by (simp add: mark_completed_def updateItemStatusInControl_def loadPageStatusControl_def
        savePageStatusControl_def no_faults_def page2_control_def item_at_def
        count_item_def mark_item_def Let_def)

lemma mark_b1:
  "mark_completed 2 fresh_realm (page2_control (Some 1) None 1 1) ''sub_block'' ''b1'' =
     (fresh_realm, [''p1'' \<mapsto> page2_control (Some 1) (Some 2) 2 2],
      Some \<lparr>saved_statusControl = Some (page2_control (Some 1) (Some 2) 2 2),
            allCompleted = True, readyForFinalProcessing = True\<rparr>)"
  by (simp add: mark_completed_def updateItemStatusInControl_def loadPageStatusControl_def
        savePageStatusControl_def no_faults_def page2_control_def item_at_def
        count_item_def mark_item_def Let_def subBlock_slot_def prop_name_def)

lemma mark_b1_again:
  "mark_completed 3 fresh_realm (page2_control (Some 1) (Some 2) 2 2) ''sub_block'' ''b1'' =
     (fresh_realm, [''p1'' \<mapsto> page2_control (Some 1) (Some 2) 2 3],
      Some \<lparr>saved_statusControl = Some (page2_control (Some 1) (Some 2) 2 3),
            allCompleted = True, readyForFinalProcessing = True\<rparr>)"
  by (simp add: mark_completed_def updateItemStatusInControl_def loadPageStatusControl_def
        savePageStatusControl_def no_faults_def page2_control_def item_at_def
        count_item_def mark_item_def Let_def subBlock_slot_def prop_name_def)

text \<open>
  Names inherited from \<open>Object.prototype\<close>. On the page with one of two items
  completed, a call for the sub-block \<open>constructor\<close> counts a completion and returns
  \<open>allCompleted = true\<close>. Repeated in the same execution it does not count again, the
  built-in object having the status \<open>completed\<close> by then; in a new execution it does.
  After a call for \<open>__proto__\<close>, the same execution also finds a sub-block
  \<open>status\<close>.
\<close>

lemma mark_constructor:
  "mark_completed 2 fresh_realm (page2_control (Some 1) None 1 1) ''sub_block'' ''constructor'' =
     ([''constructor'' \<mapsto> \<lparr>a_status = ''completed'', a_taskId = Some ''task'',
                              a_processedFile = Some ''file'', a_completedAt = Some 2\<rparr>],
      [''p1'' \<mapsto> page2_control (Some 1) None 2 2],
      Some \<lparr>saved_statusControl = Some (page2_control (Some 1) None 2 2),
            allCompleted = True, readyForFinalProcessing = True\<rparr>)"
  by (simp add: mark_completed_def updateItemStatusInControl_def loadPageStatusControl_def
        savePageStatusControl_def no_faults_def page2_control_def item_at_def
        count_item_def mark_builtin_def slot_status_def Let_def subBlock_slot_def prop_name_def
        Object_prototype_names_def fresh_realm_def)

lemma mark_constructor_again:
  "map_option (completedItems \<circ> tracking)
     (fst (snd (mark_completed 3
        [''constructor'' \<mapsto> \<lparr>a_status = ''completed'', a_taskId = Some ''task'',
                                a_processedFile = Some ''file'', a_completedAt = Some 2\<rparr>]
        (page2_control (Some 1) None 2 2) ''sub_block'' ''constructor'')) ''p1'') = Some 2"
  "map_option (completedItems \<circ> tracking)
     (fst (snd (mark_completed 3 fresh_realm
        (page2_control (Some 1) None 2 2) ''sub_block'' ''constructor'')) ''p1'') = Some 3"
  by (simp_all add: mark_completed_def updateItemStatusInControl_def loadPageStatusControl_def
        savePageStatusControl_def no_faults_def page2_control_def item_at_def
        count_item_def mark_builtin_def slot_status_def Let_def subBlock_slot_def prop_name_def
        Object_prototype_names_def fresh_realm_def)

lemma mark_proto:
  "mark_completed 2 fresh_realm (page2_control (Some 1) None 1 1) ''sub_block'' ''__proto__'' =
     ([''__proto__'' \<mapsto> \<lparr>a_status = ''completed'', a_taskId = Some ''task'',
                            a_processedFile = Some ''file'', a_completedAt = Some 2\<rparr>],
      [''p1'' \<mapsto> page2_control (Some 1) None 2 2],
      Some \<lparr>saved_statusControl = Some (page2_control (Some 1) None 2 2),
            allCompleted = True, readyForFinalProcessing = True\<rparr>)"
  by (simp add: mark_completed_def updateItemStatusInControl_def loadPageStatusControl_def
        savePageStatusControl_def no_faults_def page2_control_def item_at_def
        count_item_def mark_builtin_def slot_status_def Let_def subBlock_slot_def prop_name_def
        Object_prototype_names_def fresh_realm_def)

lemma mark_status_after_proto:
  "mark_completed 3
     [''__proto__'' \<mapsto> \<lparr>a_status = ''completed'', a_taskId = Some ''task'',
                            a_processedFile = Some ''file'', a_completedAt = Some 2\<rparr>]
     (page2_control (Some 1) None 2 2) ''sub_block'' ''status'' =
     ([''__proto__'' \<mapsto> \<lparr>a_status = ''completed'', a_taskId = Some ''task'',
                            a_processedFile = Some ''file'', a_completedAt = Some 2\<rparr>],
      [''p1'' \<mapsto> page2_control (Some 1) None 2 3],
      Some \<lparr>saved_statusControl = Some (page2_control (Some 1) None 2 3),
            allCompleted = True, readyForFinalProcessing = True\<rparr>)"
  "mark_completed 3 fresh_realm (page2_control (Some 1) None 2 2) ''sub_block'' ''status'' =
     (fresh_realm, [''p1'' \<mapsto> page2_control (Some 1) None 2 2], None)"
  by (simp_all add: mark_completed_def updateItemStatusInControl_def loadPageStatusControl_def
        savePageStatusControl_def no_faults_def page2_control_def item_at_def
        count_item_def slot_status_def Let_def subBlock_slot_def prop_name_def
        Object_prototype_names_def fresh_realm_def js_truthy_def)

theorem updateItemStatusInControl_allCompleted_witness:
  "mark_completed 2 fresh_realm (page2_control (Some 1) None 1 1) ''sub_block'' ''b1'' =
     (fresh_realm, [''p1'' \<mapsto> page2_control (Some 1) (Some 2) 2 2],
      Some \<lparr>saved_statusControl = Some (page2_control (Some 1) (Some 2) 2 2),
            allCompleted = True, readyForFinalProcessing = True\<rparr>) \<and>
   completedItems (tracking (page2_control (Some 1) None 1 1)) +
     (if previous_status fresh_realm (page2_control (Some 1) None 1 1)
           (Some ''sub_block'') (Some ''b1'') = Some ''completed'' then 0 else 1)
     = totalItems (tracking (page2_control (Some 1) None 1 1)) \<and>
   completedItems (tracking (page2_control (Some 1) (Some 2) 2 2))
     = totalItems (tracking (page2_control (Some 1) (Some 2) 2 2)) \<and>
   fst (snd (mark_completed 2 fresh_realm (page2_control (Some 1) None 1 1)
               ''sub_block'' ''constructor'')) ''p1''
     = Some (page2_control (Some 1) None 2 2) \<and>
   completedItems (tracking (page2_control (Some 1) None 1 1)) +
     (if previous_status fresh_realm (page2_control (Some 1) None 1 1)
           (Some ''sub_block'') (Some ''constructor'') = Some ''completed'' then 0 else 1)
     = totalItems (tracking (page2_control (Some 1) None 1 1))"
proof -
  have h1: "[''p1'' \<mapsto> page2_control (Some 1) None 1 1] ''p1''
      = Some (page2_control (Some 1) None 1 1)" by simp
  note b = mark_b1[unfolded mark_completed_def]
  note k = mark_constructor[unfolded mark_completed_def]
  from updateItemStatusInControl_allCompleted[OF h1 b]
    updateItemStatusInControl_allCompleted[OF h1 k] mark_b1 mark_constructor
  show ?thesis by simp
qed

text \<open>
  Claim C1 as stated fails: on a page with two items, the call that completes the second
  item returns \<open>allCompleted = true\<close>, and so does the repeated call for the same item.
\<close>

theorem updateItemStatusInControl_allCompleted_counterexample:
  "map_option allCompleted (snd (snd (mark_completed 1 fresh_realm
      (page2_control None None 0 0) ''main_page'' ''main''))) = Some False \<and>
   map_option allCompleted (snd (snd (mark_completed 2 fresh_realm
      (page2_control (Some 1) None 1 1) ''sub_block'' ''b1''))) = Some True \<and>
   map_option allCompleted (snd (snd (mark_completed 3 fresh_realm
      (page2_control (Some 1) (Some 2) 2 2) ''sub_block'' ''b1''))) = Some True \<and>
   fst (snd (mark_completed 1 fresh_realm (page2_control None None 0 0) ''main_page'' ''main''))
     ''p1'' = Some (page2_control (Some 1) None 1 1) \<and>
   fst (snd (mark_completed 2 fresh_realm (page2_control (Some 1) None 1 1) ''sub_block'' ''b1''))
     ''p1'' = Some (page2_control (Some 1) (Some 2) 2 2)"
  by (simp add: mark_main mark_b1 mark_b1_again)

theorem updateItemStatusInControl_idempotent_witness:
  "[''p1'' \<mapsto> page2_control (Some 1) None 1 1] ''p1'' = Some (page2_control (Some 1) None 1 1) \<and>
   item_status (page2_control (Some 1) None 1 1) (Some ''sub_block'') (Some ''b1'')
     = Some ''pending'' \<and>
   mark_completed 2 fresh_realm (page2_control (Some 1) None 1 1) ''sub_block'' ''b1'' =
     (fresh_realm, [''p1'' \<mapsto> page2_control (Some 1) (Some 2) 2 2],
      Some \<lparr>saved_statusControl = Some (page2_control (Some 1) (Some 2) 2 2),
            allCompleted = True, readyForFinalProcessing = True\<rparr>) \<and>
   mark_completed 3 fresh_realm (page2_control (Some 1) (Some 2) 2 2) ''sub_block'' ''b1'' =
     (fresh_realm, [''p1'' \<mapsto> page2_control (Some 1) (Some 2) 2 3],
      Some \<lparr>saved_statusControl = Some (page2_control (Some 1) (Some 2) 2 3),
            allCompleted = True, readyForFinalProcessing = True\<rparr>) \<and>
   completedItems (tracking (page2_control (Some 1) (Some 2) 2 2)) = 2 \<and>
   completedItems (tracking (page2_control (Some 1) (Some 2) 2 3)) = 2 \<and>
   pendingItems (tracking (page2_control (Some 1) (Some 2) 2 3))
     = pendingItems (tracking (page2_control (Some 1) (Some 2) 2 2))"
proof -
  have h1: "[''p1'' \<mapsto> page2_control (Some 1) None 1 1] ''p1''
      = Some (page2_control (Some 1) None 1 1)" by simp
  have h2: "item_status (page2_control (Some 1) None 1 1) (Some ''sub_block'') (Some ''b1'')
     = Some ''pending''"
    by (simp add: item_status_def page2_control_def item_at_def prop_name_def)
  have h4: "saved_statusControl \<lparr>saved_statusControl = Some (page2_control (Some 1) (Some 2) 2 2),
            allCompleted = True, readyForFinalProcessing = True\<rparr>
      = Some (page2_control (Some 1) (Some 2) 2 2)" by simp
  note h3 = mark_b1[unfolded mark_completed_def]
  note h5 = mark_b1_again[unfolded mark_completed_def]
  from updateItemStatusInControl_idempotent[OF h1 h2 h3 h4 h5] h1 h2 mark_b1 mark_b1_again
  show ?thesis by (simp add: page2_control_def)
qed

section \<open>Properties of the callback handler\<close>












section \<open>Properties of the combination\<close>







end
